theory Spec2Isabelle
  imports Main "HOL-Library.Sublist"
begin

section \<open>Python strings and dictionaries as the plugin uses them\<close>

text \<open>
  The plugin (\<^verbatim>\<open>plugins/wan2gp-prompt-library/plugin.py\<close>) works on Python \<^verbatim>\<open>str\<close> and
  \<^verbatim>\<open>dict\<close> values. A string is a \<^typ>\<open>string\<close>, and a \<^typ>\<open>char\<close> is a code point below 256:
  the strings are those over the first 256 code points.
  A \<^verbatim>\<open>dict\<close> is an association list with distinct keys that keeps the order of first
  insertion, which is the order \<^verbatim>\<open>dict.items()\<close> iterates in.
\<close>

definition is_space :: "char \<Rightarrow> bool" where
  \<comment> \<open>\<^verbatim>\<open>str.isspace\<close> on a code point below 256: TAB, LF, VT, FF, CR, FS, GS, RS, US, SPACE,
      NEL (U+0085) and NO-BREAK SPACE (U+00A0).\<close>
  "is_space c = (of_char c \<in> {9, 10, 11, 12, 13, 28, 29, 30, 31, 32, 133, 160 :: nat})"

definition strip :: "string \<Rightarrow> string" where
  \<comment> \<open>\<^verbatim>\<open>s.strip()\<close>\<close>
  "strip s = rev (dropWhile is_space (rev (dropWhile is_space s)))"

fun split_on :: "char \<Rightarrow> string \<Rightarrow> string list" where
  \<comment> \<open>\<^verbatim>\<open>s.split(sep)\<close> for a separator of one character: always at least one piece.\<close>
  "split_on sep [] = [[]]"
| "split_on sep (c # cs) =
     (if c = sep then [] # split_on sep cs
      else (case split_on sep cs of
              [] \<Rightarrow> [[c]]
            | p # ps \<Rightarrow> (c # p) # ps))"

definition split_once :: "char \<Rightarrow> string \<Rightarrow> string \<times> string" where
  \<comment> \<open>\<^verbatim>\<open>key, value = s.split(sep, 1)\<close>, called only when \<^verbatim>\<open>sep in s\<close>.\<close>
  "split_once sep s = (takeWhile (\<lambda>c. c \<noteq> sep) s, tl (dropWhile (\<lambda>c. c \<noteq> sep) s))"

fun dict_set :: "'k \<Rightarrow> 'v \<Rightarrow> ('k \<times> 'v) list \<Rightarrow> ('k \<times> 'v) list" where
  \<comment> \<open>\<^verbatim>\<open>d[k] = v\<close>: an existing key keeps its place, a new key goes to the end.\<close>
  "dict_set k v [] = [(k, v)]"
| "dict_set k v ((k', v') # d) =
     (if k' = k then (k, v) # d else (k', v') # dict_set k v d)"

fun replace :: "string \<Rightarrow> string \<Rightarrow> string \<Rightarrow> string" where
  \<comment> \<open>\<^verbatim>\<open>s.replace(old, new)\<close>: the occurrences of \<^verbatim>\<open>old\<close> found from the left, without overlap;
      an empty \<^verbatim>\<open>old\<close> matches before every character and at the end.\<close>
  "replace [] old new = (if old = [] then new else [])"
| "replace (c # cs) old new =
     (if old = [] then new @ c # replace cs old new
      else if prefix old (c # cs) then new @ replace (drop (length old - 1) cs) old new
      else c # replace cs old new)"

section \<open>Variable substitution\<close>

text \<open>
  \<^verbatim>\<open>
  def _substitute_variables(self, prompt, variable_string):
      if not variable_string or not variable_string.strip():
          return prompt
      variables = {}
      for pair in variable_string.split(","):
          pair = pair.strip()
          if "=" in pair:
              key, value = pair.split("=", 1)
              variables[key.strip()] = value.strip()
      for key, value in variables.items():
          prompt = prompt.replace(f"{{{key}}}", value)
      return prompt
  \<close>
\<close>

definition parse_pair :: "string \<Rightarrow> (string \<times> string) list \<Rightarrow> (string \<times> string) list" where
  \<comment> \<open>The body of the first loop.\<close>
  "parse_pair pair variables =
     (let pair = strip pair in
      if CHR ''='' \<in> set pair
      then (let (key, value) = split_once CHR ''='' pair
            in dict_set (strip key) (strip value) variables)
      else variables)"

definition parse_variables :: "string \<Rightarrow> (string \<times> string) list" where
  "parse_variables variable_string = fold parse_pair (split_on CHR '','' variable_string) []"

definition placeholder :: "string \<Rightarrow> string" where
  \<comment> \<open>\<^verbatim>\<open>f"{{{key}}}"\<close>\<close>
  "placeholder key = CHR ''{'' # key @ [CHR ''}'']"

definition replace_variable :: "string \<times> string \<Rightarrow> string \<Rightarrow> string" where
  \<comment> \<open>The body of the second loop.\<close>
  "replace_variable kv prompt = replace prompt (placeholder (fst kv)) (snd kv)"

definition substitute_variables :: "string \<Rightarrow> string \<Rightarrow> string" where
  "substitute_variables prompt variable_string =
     (if variable_string = [] \<or> strip variable_string = [] then prompt
      else fold replace_variable (parse_variables variable_string) prompt)"

section \<open>Substitution as the specification words it\<close>

text \<open>
  The specification describes the result of \<^const>\<open>substitute_variables\<close> by a mapping and one
  replacement of placeholders. \<open>stated_pairs\<close> lists the \<^verbatim>\<open>key=value\<close> pairs of a variable
  string in the order they are written, each key and value trimmed. \<open>stated_mapping\<close> is the
  mapping they give: its keys in the order in which they are first written, each with the
  value of the last pair written for it. \<open>substitute_placeholders\<close>
  reads the template once from the left: a placeholder is \<^verbatim>\<open>{name}\<close> with no brace inside
  the name; a placeholder whose name the mapping knows is replaced by the value, and all
  other text is copied.
\<close>

definition stated_pairs :: "string \<Rightarrow> (string \<times> string) list" where
  "stated_pairs variable_string =
     map (\<lambda>pair. (strip (fst (split_once CHR ''='' (strip pair))),
                  strip (snd (split_once CHR ''='' (strip pair)))))
       (filter (\<lambda>pair. CHR ''='' \<in> set (strip pair)) (split_on CHR '','' variable_string))"

fun first_occurrences :: "'a list \<Rightarrow> 'a list" where
  \<comment> \<open>The elements of a list, each once, in the order in which they first occur.\<close>
  "first_occurrences [] = []"
| "first_occurrences (x # xs) = x # filter (\<lambda>y. y \<noteq> x) (first_occurrences xs)"

definition stated_mapping :: "string \<Rightarrow> (string \<times> string) list" where
  "stated_mapping variable_string =
     map (\<lambda>key. (key, case map_of (rev (stated_pairs variable_string)) key of
                         None \<Rightarrow> []
                       | Some value \<Rightarrow> value))
       (first_occurrences (map fst (stated_pairs variable_string)))"

definition no_brace :: "char \<Rightarrow> bool" where
  "no_brace c = (c \<noteq> CHR ''{'' \<and> c \<noteq> CHR ''}'')"

definition brace_free :: "string \<Rightarrow> bool" where
  "brace_free s = list_all no_brace s"

function substitute_placeholders :: "(string \<Rightarrow> string option) \<Rightarrow> string \<Rightarrow> string" where
  "substitute_placeholders m [] = []"
| "substitute_placeholders m (c # cs) =
     (if c = CHR ''{''
      then (case dropWhile no_brace cs of
              [] \<Rightarrow> c # substitute_placeholders m cs
            | d # rest \<Rightarrow>
                if d = CHR ''}''
                then (case m (takeWhile no_brace cs) of
                        None \<Rightarrow> c # substitute_placeholders m cs
                      | Some v \<Rightarrow> v @ substitute_placeholders m rest)
                else c # substitute_placeholders m cs)
      else c # substitute_placeholders m cs)"
  by pat_completeness auto
termination
proof (relation "measure (\<lambda>(m, s). length s)")
  show "wf (measure (\<lambda>(m, s). length s))" by simp
next
  fix m :: "string \<Rightarrow> string option" and c :: char and cs x21 x22 x2
  assume "dropWhile no_brace cs = x21 # x22"
  then have "length (x21 # x22) \<le> length cs"
    by (metis length_dropWhile_le)
  then show "((m, x22), m, c # cs) \<in> measure (\<lambda>(m, s). length s)" by simp
qed simp_all

function well_braced :: "string \<Rightarrow> bool" where
  \<comment> \<open>Every brace of the text delimits a placeholder \<^verbatim>\<open>{name}\<close> with a brace-free name.\<close>
  "well_braced [] = True"
| "well_braced (c # cs) =
     (if c = CHR ''{''
      then (case dropWhile no_brace cs of
              [] \<Rightarrow> False
            | d # rest \<Rightarrow> d = CHR ''}'' \<and> well_braced rest)
      else c \<noteq> CHR ''}'' \<and> well_braced cs)"
  by pat_completeness auto
termination
proof (relation "measure length")
  show "wf (measure length)" by simp
next
  fix c :: char and cs x21 x22
  assume "dropWhile no_brace cs = x21 # x22"
  then have "length (x21 # x22) \<le> length cs"
    by (metis length_dropWhile_le)
  then show "(x22, c # cs) \<in> measure length" by simp
qed simp_all

section \<open>Prompt records, host settings and the plugin's handlers\<close>

text \<open>
  A value of the host's settings mapping or of a record's saved settings is a JSON value.
  Numbers are kept as integers: no handler below computes with them.
\<close>

datatype json =
    JNull
  | JBool bool
  | JNum int
  | JStr string
  | JArr "json list"
  | JObj "(string \<times> json) list"

text \<open>
  A prompt record is the dictionary the plugin reads with \<^verbatim>\<open>prompt_data["id"]\<close>,
  \<^verbatim>\<open>["name"]\<close>, \<^verbatim>\<open>["prompt"]\<close>, \<^verbatim>\<open>.get("negative_prompt")\<close>, \<^verbatim>\<open>.get("tags", [])\<close>,
  \<^verbatim>\<open>.get("settings", {})\<close>, \<^verbatim>\<open>.get("use_count", 0)\<close> and \<^verbatim>\<open>.get("variables")\<close>; the keys
  read with \<^verbatim>\<open>.get\<close> and no default may be missing. Time stamps are points of an integer clock.
\<close>

record prompt_record =
  rec_id :: string
  rec_name :: string
  rec_prompt :: string
  rec_negative_prompt :: "string option"
  rec_tags :: "string list"
  rec_settings :: "(string \<times> json) list option"
  rec_use_count :: nat
  rec_variables :: "string list"
  rec_created_at :: int
  rec_updated_at :: int

text \<open>What a handler reports in its status line; the texts are the source's.\<close>

datatype message =
    SelectPromptFirst                \<comment> \<open>"Please select a prompt first"\<close>
  | PromptNotFound                   \<comment> \<open>"Prompt not found"\<close>
  | LoadedPrompt string              \<comment> \<open>"Loaded prompt: NAME"\<close>
  | LoadedPromptWithSettings string  \<comment> \<open>"Loaded prompt with settings: NAME"\<close>
  | RemovedFromFavorites             \<comment> \<open>"Removed from favorites"\<close>
  | FailedRemoveFromFavorites        \<comment> \<open>"Failed to remove from favorites"\<close>
  | AddedToFavorites                 \<comment> \<open>"Added to favorites"\<close>
  | FailedAddToFavorites             \<comment> \<open>"Failed to add to favorites"\<close>
  | ProvideName                      \<comment> \<open>"Please provide a name for the prompt"\<close>
  | NoPromptToSave                   \<comment> \<open>"No prompt to save. Enter a prompt or fetch from main tab."\<close>
  | SavedPrompt string               \<comment> \<open>"Saved prompt: NAME"\<close>
  | FailedSavePrompt                 \<comment> \<open>"Failed to save prompt"\<close>
  | CollectionNotFound               \<comment> \<open>"Collection not found"\<close>
  | CannotDeleteFavorites            \<comment> \<open>"Cannot delete Favorites collection"\<close>
  | DeletedCollection string         \<comment> \<open>"Deleted collection: DISPLAY"\<close>
  | FailedDeleteCollection string    \<comment> \<open>"Failed to delete collection: DISPLAY"\<close>

text \<open>
  The handlers call the prompt library, \<^verbatim>\<open>self.library\<close>, whose module is not part of the
  sources at hand. Each handler takes the library operations it calls as parameters and
  passes the library's document through them, so a statement about a handler holds for
  every implementation of the library. The values a handler returns for the view (tab
  selection, rendered gallery, refreshed choices) are left out: they are built from reads.
\<close>

definition set_negative_prompt :: "prompt_record \<Rightarrow> (string \<times> json) list \<Rightarrow> (string \<times> json) list" where
  \<comment> \<open>\<^verbatim>\<open>if prompt_data.get("negative_prompt"): settings["negative_prompt"] = prompt_data["negative_prompt"]\<close>\<close>
  "set_negative_prompt prompt_data settings =
     (case rec_negative_prompt prompt_data of
        None \<Rightarrow> settings
      | Some negative \<Rightarrow>
          if negative = [] then settings
          else dict_set ''negative_prompt'' (JStr negative) settings)"

definition apply_saved_setting :: "string \<times> json \<Rightarrow> (string \<times> json) list \<Rightarrow> (string \<times> json) list" where
  \<comment> \<open>\<^verbatim>\<open>if key in settings: settings[key] = value\<close>\<close>
  "apply_saved_setting kv settings =
     (if fst kv \<in> fst ` set settings then dict_set (fst kv) (snd kv) settings else settings)"

definition saved_settings_of :: "prompt_record \<Rightarrow> (string \<times> json) list" where
  \<comment> \<open>\<^verbatim>\<open>prompt_data.get("settings", {})\<close>\<close>
  "saved_settings_of prompt_data = (case rec_settings prompt_data of None \<Rightarrow> [] | Some s \<Rightarrow> s)"

text \<open>
  \<^verbatim>\<open>
  def _use_prompt_only(self, state, prompt_id, variables):
      if not prompt_id:
          return gr.update(), "Please select a prompt first"
      prompt_data = self.library.get_prompt(prompt_id)
      if not prompt_data:
          return gr.update(), "Prompt not found"
      final_prompt = self._substitute_variables(prompt_data["prompt"], variables)
      if self.get_current_model_settings:
          settings = self.get_current_model_settings(state)
          settings["prompt"] = final_prompt
          if prompt_data.get("negative_prompt"):
              settings["negative_prompt"] = prompt_data["negative_prompt"]
      self.library.record_usage(prompt_id)
      return gr.Tabs(selected="video_gen"), f"Loaded prompt: {prompt_data['name']}"
  \<close>
  The host's settings mapping is \<open>None\<close> when the host gave the plugin no
  \<^verbatim>\<open>get_current_model_settings\<close>.
\<close>

definition use_prompt_only ::
  "('lib \<Rightarrow> string \<Rightarrow> prompt_record option) \<Rightarrow> ('lib \<Rightarrow> string \<Rightarrow> 'lib) \<Rightarrow>
   'lib \<Rightarrow> (string \<times> json) list option \<Rightarrow> string option \<Rightarrow> string \<Rightarrow>
   message \<times> (string \<times> json) list option \<times> 'lib" where
  "use_prompt_only get_prompt record_usage library settings prompt_id variables =
     (case prompt_id of
        None \<Rightarrow> (SelectPromptFirst, settings, library)
      | Some pid \<Rightarrow>
          if pid = [] then (SelectPromptFirst, settings, library)
          else (case get_prompt library pid of
                  None \<Rightarrow> (PromptNotFound, settings, library)
                | Some prompt_data \<Rightarrow>
                    (let final_prompt = substitute_variables (rec_prompt prompt_data) variables;
                         settings' =
                           map_option
                             (\<lambda>s. set_negative_prompt prompt_data
                                    (dict_set ''prompt'' (JStr final_prompt) s))
                             settings
                     in (LoadedPrompt (rec_name prompt_data), settings',
                         record_usage library pid))))"

text \<open>
  \<^verbatim>\<open>
  def _use_with_settings(self, state, prompt_id, variables):
      ...                                   # the same two early returns
      final_prompt = self._substitute_variables(prompt_data["prompt"], variables)
      if self.get_current_model_settings:
          settings = self.get_current_model_settings(state)
          settings["prompt"] = final_prompt
          if prompt_data.get("negative_prompt"):
              settings["negative_prompt"] = prompt_data["negative_prompt"]
          saved_settings = prompt_data.get("settings", {})
          for key, value in saved_settings.items():
              if key in settings:
                  settings[key] = value
      self.library.record_usage(prompt_id)
      return time.time(), gr.Tabs(selected="video_gen"), f"Loaded prompt with settings: ..."
  \<close>
\<close>

definition use_with_settings ::
  "('lib \<Rightarrow> string \<Rightarrow> prompt_record option) \<Rightarrow> ('lib \<Rightarrow> string \<Rightarrow> 'lib) \<Rightarrow>
   'lib \<Rightarrow> (string \<times> json) list option \<Rightarrow> string option \<Rightarrow> string \<Rightarrow>
   message \<times> (string \<times> json) list option \<times> 'lib" where
  "use_with_settings get_prompt record_usage library settings prompt_id variables =
     (case prompt_id of
        None \<Rightarrow> (SelectPromptFirst, settings, library)
      | Some pid \<Rightarrow>
          if pid = [] then (SelectPromptFirst, settings, library)
          else (case get_prompt library pid of
                  None \<Rightarrow> (PromptNotFound, settings, library)
                | Some prompt_data \<Rightarrow>
                    (let final_prompt = substitute_variables (rec_prompt prompt_data) variables;
                         settings' =
                           map_option
                             (\<lambda>s. fold apply_saved_setting (saved_settings_of prompt_data)
                                    (set_negative_prompt prompt_data
                                      (dict_set ''prompt'' (JStr final_prompt) s)))
                             settings
                     in (LoadedPromptWithSettings (rec_name prompt_data), settings',
                         record_usage library pid))))"

text \<open>
  \<^verbatim>\<open>
  def _extract_collection_id(self, display_name):
      for display, coll_id in self.library.get_collection_names():
          if display == display_name:
              return coll_id
      return None
  \<close>
\<close>

definition extract_collection_id :: "(string \<times> string) list \<Rightarrow> string \<Rightarrow> string option" where
  "extract_collection_id collection_names display_name =
     map_option snd (find (\<lambda>(display, coll_id). display = display_name) collection_names)"

text \<open>
  \<^verbatim>\<open>
  def _delete_collection(self, collection_display):
      collection_id = self._extract_collection_id(collection_display)
      if not collection_id:
          return gr.update(), gr.update(), "Collection not found"
      if collection_id == "favorites":
          return gr.update(), gr.update(), "Cannot delete Favorites collection"
      if self.library.delete_collection(collection_id):
          ...
          return radio_update, gallery_update, f"Deleted collection: {collection_display}"
      else:
          return gr.update(), gr.update(), f"Failed to delete collection: {collection_display}"
  \<close>
  \<^verbatim>\<open>not collection_id\<close> holds for \<open>None\<close> and for the empty identifier.
\<close>

definition delete_collection_handler ::
  "('lib \<Rightarrow> (string \<times> string) list) \<Rightarrow> ('lib \<Rightarrow> string \<Rightarrow> bool \<times> 'lib) \<Rightarrow>
   'lib \<Rightarrow> string \<Rightarrow> message \<times> 'lib" where
  "delete_collection_handler get_collection_names delete_collection library collection_display =
     (case extract_collection_id (get_collection_names library) collection_display of
        None \<Rightarrow> (CollectionNotFound, library)
      | Some collection_id \<Rightarrow>
          if collection_id = [] then (CollectionNotFound, library)
          else if collection_id = ''favorites'' then (CannotDeleteFavorites, library)
          else (case delete_collection library collection_id of
                  (True, library') \<Rightarrow> (DeletedCollection collection_display, library')
                | (False, library') \<Rightarrow> (FailedDeleteCollection collection_display, library')))"

text \<open>
  \<^verbatim>\<open>
  def _toggle_favorite(self, prompt_id):
      if not prompt_id:
          return "Please select a prompt first", gr.update()
      is_favorite = self.library.is_in_favorites(prompt_id)
      if is_favorite:
          if self.library.remove_from_favorites(prompt_id):
              return "Removed from favorites", gr.Button(value="Favorite")
          else:
              return "Failed to remove from favorites", gr.update()
      else:
          if self.library.add_to_favorites(prompt_id):
              return "Added to favorites", gr.Button(value="Unfavorite")
          else:
              return "Failed to add to favorites", gr.update()
  \<close>
\<close>

definition toggle_favorite ::
  "('lib \<Rightarrow> string \<Rightarrow> bool) \<Rightarrow> ('lib \<Rightarrow> string \<Rightarrow> bool \<times> 'lib) \<Rightarrow>
   ('lib \<Rightarrow> string \<Rightarrow> bool \<times> 'lib) \<Rightarrow> 'lib \<Rightarrow> string option \<Rightarrow> message \<times> 'lib" where
  "toggle_favorite is_in_favorites add_to_favorites remove_from_favorites library prompt_id =
     (case prompt_id of
        None \<Rightarrow> (SelectPromptFirst, library)
      | Some pid \<Rightarrow>
          if pid = [] then (SelectPromptFirst, library)
          else if is_in_favorites library pid
          then (case remove_from_favorites library pid of
                  (True, library') \<Rightarrow> (RemovedFromFavorites, library')
                | (False, library') \<Rightarrow> (FailedRemoveFromFavorites, library'))
          else (case add_to_favorites library pid of
                  (True, library') \<Rightarrow> (AddedToFavorites, library')
                | (False, library') \<Rightarrow> (FailedAddToFavorites, library')))"

text \<open>
  \<^verbatim>\<open>
  def _save_current_prompt(self, state, name, collection, prompt_input,
                           negative_prompt_input, tags_str, include_settings):
      if not name or not name.strip():
          return "Please provide a name for the prompt", gr.update(), gr.update()
      prompt = prompt_input
      negative_prompt = negative_prompt_input
      settings = self.get_current_model_settings(state) if self.get_current_model_settings else {}
      if not prompt:
          prompt = settings.get("prompt", "")
          if not negative_prompt:
              negative_prompt = settings.get("negative_prompt", "")
      if not prompt:
          return "No prompt to save. Enter a prompt or fetch from main tab.", ...
      tags = [tag.strip() for tag in tags_str.split(",") if tag.strip()]
      saved_settings = {}
      if include_settings:
          settings_to_save = ["model_type", "resolution", "steps", "guidance_scale",
                              "num_frames", "fps", "seed", "sampler"]
          for key in settings_to_save:
              if key in settings:
                  saved_settings[key] = settings[key]
          if "loras" in settings:
              saved_settings["loras"] = settings["loras"]
      prompt_id = self.library.add_prompt(collection_id=collection, name=name.strip(),
          prompt=prompt, negative_prompt=negative_prompt, tags=tags, settings=saved_settings)
      if prompt_id:
          ...
          return f"Saved prompt: {name}", gallery_update, tag_update
      else:
          return "Failed to save prompt", gr.update(), gr.update()
  \<close>
  The prompt given to the library is the text of the input box or, when that is empty, the
  value the host's settings hold under \<^verbatim>\<open>"prompt"\<close>, whatever its type; \<^verbatim>\<open>not prompt\<close> is
  Python's truth test on that value.
\<close>

definition settings_get :: "(string \<times> json) list \<Rightarrow> string \<Rightarrow> json \<Rightarrow> json" where
  \<comment> \<open>\<^verbatim>\<open>settings.get(key, fallback)\<close>\<close>
  "settings_get settings key fallback =
     (case map_of settings key of None \<Rightarrow> fallback | Some v \<Rightarrow> v)"

fun truthy :: "json \<Rightarrow> bool" where
  \<comment> \<open>Python's truth value of a JSON value: \<^verbatim>\<open>None\<close>, \<^verbatim>\<open>False\<close>, zero and the empty string,
      list and dictionary are false.\<close>
  "truthy JNull = False"
| "truthy (JBool b) = b"
| "truthy (JNum n) = (n \<noteq> 0)"
| "truthy (JStr s) = (s \<noteq> [])"
| "truthy (JArr xs) = (xs \<noteq> [])"
| "truthy (JObj kvs) = (kvs \<noteq> [])"

definition parse_tags :: "string \<Rightarrow> string list" where
  \<comment> \<open>\<^verbatim>\<open>[tag.strip() for tag in tags_str.split(",") if tag.strip()]\<close>\<close>
  "parse_tags tags_str = filter (\<lambda>tag. tag \<noteq> []) (map strip (split_on CHR '','' tags_str))"

definition settings_to_save :: "string list" where
  "settings_to_save = [''model_type'', ''resolution'', ''steps'', ''guidance_scale'',
                       ''num_frames'', ''fps'', ''seed'', ''sampler'']"

definition copy_setting :: "(string \<times> json) list \<Rightarrow> string \<Rightarrow> (string \<times> json) list \<Rightarrow> (string \<times> json) list" where
  \<comment> \<open>\<^verbatim>\<open>if key in settings: saved_settings[key] = settings[key]\<close>\<close>
  "copy_setting settings key saved_settings =
     (case map_of settings key of None \<Rightarrow> saved_settings | Some v \<Rightarrow> dict_set key v saved_settings)"

definition capture_settings :: "bool \<Rightarrow> (string \<times> json) list \<Rightarrow> (string \<times> json) list" where
  "capture_settings include_settings settings =
     (if include_settings
      then copy_setting settings ''loras'' (fold (copy_setting settings) settings_to_save [])
      else [])"

definition save_current_prompt ::
  "('lib \<Rightarrow> string \<Rightarrow> string \<Rightarrow> json \<Rightarrow> json \<Rightarrow> string list \<Rightarrow> (string \<times> json) list
      \<Rightarrow> string option \<times> 'lib) \<Rightarrow>
   'lib \<Rightarrow> (string \<times> json) list option \<Rightarrow> string \<Rightarrow> string \<Rightarrow> string \<Rightarrow> string \<Rightarrow> string \<Rightarrow>
   bool \<Rightarrow> message \<times> 'lib" where
  "save_current_prompt add_prompt library host_settings name collection prompt_input
     negative_prompt_input tags_str include_settings =
     (if name = [] \<or> strip name = [] then (ProvideName, library)
      else
        (let settings = (case host_settings of None \<Rightarrow> [] | Some s \<Rightarrow> s);
             prompt = (if prompt_input = [] then settings_get settings ''prompt'' (JStr [])
                       else JStr prompt_input);
             negative_prompt =
               (if prompt_input = [] \<and> negative_prompt_input = []
                then settings_get settings ''negative_prompt'' (JStr [])
                else JStr negative_prompt_input)
         in if \<not> truthy prompt then (NoPromptToSave, library)
            else (case add_prompt library collection (strip name) prompt negative_prompt
                         (parse_tags tags_str) (capture_settings include_settings settings) of
                    (None, library') \<Rightarrow> (FailedSavePrompt, library')
                  | (Some prompt_id, library') \<Rightarrow>
                      if prompt_id = [] then (FailedSavePrompt, library')
                      else (SavedPrompt name, library'))))"

text \<open>
  \<^verbatim>\<open>
  def track_prompt_usage(self, configs, **kwargs):
      prompt = configs.get("prompt", "")
      if prompt:
          matching = self.library.find_by_prompt(prompt)
          if matching:
              self.library.record_usage(matching["id"])
      return configs
  \<close>
\<close>

definition track_prompt_usage ::
  "('lib \<Rightarrow> json \<Rightarrow> prompt_record option) \<Rightarrow> ('lib \<Rightarrow> string \<Rightarrow> 'lib) \<Rightarrow>
   'lib \<Rightarrow> (string \<times> json) list \<Rightarrow> (string \<times> json) list \<times> 'lib" where
  "track_prompt_usage find_by_prompt record_usage library configs =
     (let prompt = settings_get configs ''prompt'' (JStr [])
      in if \<not> truthy prompt then (configs, library)
         else (case find_by_prompt library prompt of
                 None \<Rightarrow> (configs, library)
               | Some matching \<Rightarrow> (configs, record_usage library (rec_id matching))))"

section \<open>The prompt library, from its specification\<close>

text \<open>
  The module \<^verbatim>\<open>library.py\<close> (class \<^verbatim>\<open>PromptLibrary\<close>) is imported by the plugin and is not
  among the sources. Its document and the operations below follow the specification of the
  Prompt Store: the persisted shape \<^verbatim>\<open>{"collections": {id: {"name", "prompts"}}, "favorites":
  [id, ...]}\<close> and the contract of each operation. An operation that mutates returns its
  success indicator together with the new document.
\<close>

record collection =
  coll_name :: string
  coll_prompts :: "prompt_record list"

record library =
  lib_collections :: "(string \<times> collection) list"
  lib_favorites :: "string list"

definition all_prompts :: "library \<Rightarrow> prompt_record list" where
  \<comment> \<open>Modelled from the spec: the records of every collection, in document order.\<close>
  "all_prompts lib = concat (map (\<lambda>(cid, c). coll_prompts c) (lib_collections lib))"

definition get_prompt :: "library \<Rightarrow> string \<Rightarrow> prompt_record option" where
  \<comment> \<open>Modelled from the spec: \<^verbatim>\<open>get_prompt(id) -> record | not-found\<close>, a read across all
      collections.\<close>
  "get_prompt lib pid = find (\<lambda>r. rec_id r = pid) (all_prompts lib)"

definition find_by_prompt :: "library \<Rightarrow> json \<Rightarrow> prompt_record option" where
  \<comment> \<open>Modelled from the spec: the first record, in document order, whose \<^verbatim>\<open>prompt\<close> equals
      the value given; a value that is not text equals no prompt.\<close>
  "find_by_prompt lib text = find (\<lambda>r. JStr (rec_prompt r) = text) (all_prompts lib)"

fun update_first :: "('a \<Rightarrow> bool) \<Rightarrow> ('a \<Rightarrow> 'a) \<Rightarrow> 'a list \<Rightarrow> 'a list" where
  \<comment> \<open>Modelled from the spec: a change to the first element found, as a lookup followed by an
      update in place makes it.\<close>
  "update_first P f [] = []"
| "update_first P f (x # xs) = (if P x then f x # xs else x # update_first P f xs)"

definition bump_usage :: "int \<Rightarrow> prompt_record \<Rightarrow> prompt_record" where
  \<comment> \<open>Modelled from the spec: \<^verbatim>\<open>use_count\<close> goes up by 1 and \<^verbatim>\<open>updated_at\<close> is stamped.\<close>
  "bump_usage now r = r\<lparr>rec_use_count := rec_use_count r + 1, rec_updated_at := now\<rparr>"

fun record_usage_in :: "int \<Rightarrow> string \<Rightarrow> (string \<times> collection) list \<Rightarrow> (string \<times> collection) list" where
  \<comment> \<open>Modelled from the spec: the update of \<^verbatim>\<open>record_usage\<close> in the first collection that holds
      the id.\<close>
  "record_usage_in now pid [] = []"
| "record_usage_in now pid ((cid, c) # cs) =
     (if pid \<in> rec_id ` set (coll_prompts c)
      then (cid, c\<lparr>coll_prompts :=
                    update_first (\<lambda>r. rec_id r = pid) (bump_usage now) (coll_prompts c)\<rparr>) # cs
      else (cid, c) # record_usage_in now pid cs)"

definition record_usage :: "int \<Rightarrow> library \<Rightarrow> string \<Rightarrow> library" where
  \<comment> \<open>Modelled from the spec: \<^verbatim>\<open>record_usage(id)\<close> increments \<^verbatim>\<open>use_count\<close> by 1 and updates
      \<^verbatim>\<open>updated_at\<close> of the record \<^verbatim>\<open>get_prompt(id)\<close> finds; a no-op if the id is unknown.
      \<open>now\<close> is the clock's reading.\<close>
  "record_usage now lib pid = lib\<lparr>lib_collections := record_usage_in now pid (lib_collections lib)\<rparr>"

definition is_in_favorites :: "library \<Rightarrow> string \<Rightarrow> bool" where
  \<comment> \<open>Modelled from the spec: membership in the document's \<^verbatim>\<open>favorites\<close> list.\<close>
  "is_in_favorites lib pid = (pid \<in> set (lib_favorites lib))"

definition add_to_favorites :: "library \<Rightarrow> string \<Rightarrow> bool \<times> library" where
  \<comment> \<open>Modelled from the spec: adding an already-favorited id reports failure.\<close>
  "add_to_favorites lib pid =
     (if pid \<in> set (lib_favorites lib) then (False, lib)
      else (True, lib\<lparr>lib_favorites := lib_favorites lib @ [pid]\<rparr>))"

definition remove_from_favorites :: "library \<Rightarrow> string \<Rightarrow> bool \<times> library" where
  \<comment> \<open>Modelled from the spec: removing a non-favorited id reports failure.\<close>
  "remove_from_favorites lib pid =
     (if pid \<notin> set (lib_favorites lib) then (False, lib)
      else (True, lib\<lparr>lib_favorites := removeAll pid (lib_favorites lib)\<rparr>))"

definition fresh_id :: "string list \<Rightarrow> string" where
  \<comment> \<open>Modelled from the spec: "generates a fresh unique id". The spec leaves the scheme open;
      this one gives a run of zeros one longer than the longest id in use.\<close>
  "fresh_id used = replicate (Suc (fold max (map length used) 0)) CHR ''0''"

definition is_word_char :: "char \<Rightarrow> bool" where
  \<comment> \<open>Modelled from the spec: a character of an identifier (letter, digit or underscore).\<close>
  "is_word_char c =
     (let n = (of_char c :: nat)
      in (48 \<le> n \<and> n \<le> 57) \<or> (65 \<le> n \<and> n \<le> 90) \<or> n = 95 \<or> (97 \<le> n \<and> n \<le> 122))"

fun scan_variables :: "string \<Rightarrow> string list" where
  \<comment> \<open>Modelled from the spec: the names of the \<^verbatim>\<open>{identifier}\<close> patterns, in order.\<close>
  "scan_variables [] = []"
| "scan_variables (c # cs) =
     (if c = CHR ''{''
      then (case dropWhile is_word_char cs of
              [] \<Rightarrow> scan_variables cs
            | d # rest \<Rightarrow>
                if d = CHR ''}'' \<and> takeWhile is_word_char cs \<noteq> []
                then takeWhile is_word_char cs # scan_variables cs
                else scan_variables cs)
      else scan_variables cs)"

definition extract_variables :: "string \<Rightarrow> string list" where
  \<comment> \<open>Modelled from the spec: the placeholder names found by scanning the prompt for
      \<^verbatim>\<open>{identifier}\<close> patterns, each once.\<close>
  "extract_variables text = remdups (scan_variables text)"

definition new_record ::
  "int \<Rightarrow> string \<Rightarrow> string \<Rightarrow> string \<Rightarrow> string \<Rightarrow> string list \<Rightarrow> (string \<times> json) list \<Rightarrow>
   prompt_record" where
  \<comment> \<open>Modelled from the spec: the record \<^verbatim>\<open>add_prompt\<close> creates: the fields as given, the
      variables computed from the prompt, \<^verbatim>\<open>use_count = 0\<close> and both times stamped.\<close>
  "new_record now new_id name prompt negative_prompt tags settings =
     \<lparr>rec_id = new_id, rec_name = name, rec_prompt = prompt,
      rec_negative_prompt = Some negative_prompt, rec_tags = tags,
      rec_settings = Some settings, rec_use_count = 0,
      rec_variables = extract_variables prompt,
      rec_created_at = now, rec_updated_at = now\<rparr>"

definition add_prompt ::
  "int \<Rightarrow> library \<Rightarrow> string \<Rightarrow> string \<Rightarrow> string \<Rightarrow> string \<Rightarrow> string list \<Rightarrow>
   (string \<times> json) list \<Rightarrow> string option \<times> library" where
  \<comment> \<open>Modelled from the spec: \<^verbatim>\<open>add_prompt(collection_id, name, prompt, negative_prompt, tags,
      settings) -> id | failure\<close>. Fails if the collection is unknown or the name or the prompt
      is empty after trimming whitespace; otherwise generates a fresh id and appends the new
      record to the collection.\<close>
  "add_prompt now lib collection_id name prompt negative_prompt tags settings =
     (case map_of (lib_collections lib) collection_id of
        None \<Rightarrow> (None, lib)
      | Some c \<Rightarrow>
          if strip name = [] \<or> strip prompt = [] then (None, lib)
          else
            (let new_id = fresh_id (map rec_id (all_prompts lib));
                 r = new_record now new_id name prompt negative_prompt tags settings
             in (Some new_id,
                 lib\<lparr>lib_collections :=
                       dict_set collection_id (c\<lparr>coll_prompts := coll_prompts c @ [r]\<rparr>)
                         (lib_collections lib)\<rparr>)))"

definition add_prompt_values ::
  "int \<Rightarrow> library \<Rightarrow> string \<Rightarrow> string \<Rightarrow> json \<Rightarrow> json \<Rightarrow> string list \<Rightarrow>
   (string \<times> json) list \<Rightarrow> string option \<times> library" where
  \<comment> \<open>Modelled from the spec: \<^verbatim>\<open>add_prompt\<close> as the save handler calls it, with values that may
      come from the host's settings. The spec gives the prompt and the negative prompt as
      text: a prompt that is not text is refused, a negative prompt that is not text is
      stored as the empty text.\<close>
  "add_prompt_values now lib collection_id name prompt negative_prompt tags settings =
     (case prompt of
        JStr text \<Rightarrow>
          add_prompt now lib collection_id name text
            (case negative_prompt of JStr negative \<Rightarrow> negative | _ \<Rightarrow> []) tags settings
      | _ \<Rightarrow> (None, lib))"

definition lower_char :: "char \<Rightarrow> char" where
  \<comment> \<open>Modelled from the spec: case-insensitive matching compares lower-cased text.\<close>
  "lower_char c =
     (if 65 \<le> (of_char c :: nat) \<and> (of_char c :: nat) \<le> 90 then char_of (of_char c + 32 :: nat)
      else c)"

definition lower :: "string \<Rightarrow> string" where
  \<comment> \<open>Modelled from the spec: \<^verbatim>\<open>s.lower()\<close> on the ASCII range.\<close>
  "lower s = map lower_char s"

definition matches_search :: "string \<Rightarrow> prompt_record \<Rightarrow> bool" where
  \<comment> \<open>Modelled from the spec: a non-empty search is matched case-insensitively as a substring
      against \<^verbatim>\<open>name\<close> and \<^verbatim>\<open>prompt\<close>.\<close>
  "matches_search search r =
     (search = [] \<or> sublist (lower search) (lower (rec_name r))
      \<or> sublist (lower search) (lower (rec_prompt r)))"

definition matches_tags :: "string list \<Rightarrow> prompt_record \<Rightarrow> bool" where
  \<comment> \<open>Modelled from the spec: a non-empty filter keeps the records whose tag set is a superset
      of the filter set.\<close>
  "matches_tags tags r = (set tags \<subseteq> set (rec_tags r))"

definition get_prompts_in_collection :: "library \<Rightarrow> string \<Rightarrow> string \<Rightarrow> string list \<Rightarrow> prompt_record list" where
  \<comment> \<open>Modelled from the spec: \<^verbatim>\<open>get_prompts_in_collection(collection_id, search, tags)\<close>; ordering
      most-recently-updated first, ties broken by insertion order (a stable sort). An unknown
      collection has no records.\<close>
  "get_prompts_in_collection lib collection_id search tags =
     (case map_of (lib_collections lib) collection_id of
        None \<Rightarrow> []
      | Some c \<Rightarrow>
          sort_key (\<lambda>r. - rec_updated_at r)
            (filter (\<lambda>r. matches_search search r \<and> matches_tags tags r) (coll_prompts c)))"

text \<open>
  An import document is what \<^verbatim>\<open>export_collection\<close> produces: the collection's id, its display
  name and its records. A field is \<open>None\<close> when the document lacks it.
\<close>

record import_document =
  doc_id :: "string option"
  doc_name :: "string option"
  doc_prompts :: "prompt_record list option"

fun merge_prompts :: "string list \<Rightarrow> prompt_record list \<Rightarrow> prompt_record list" where
  \<comment> \<open>Modelled from the spec: an incoming record whose id is in use gets a new id.\<close>
  "merge_prompts used [] = []"
| "merge_prompts used (r # rs) =
     (let r' = (if rec_id r \<in> set used then r\<lparr>rec_id := fresh_id used\<rparr> else r)
      in r' # merge_prompts (rec_id r' # used) rs)"

definition import_collection :: "library \<Rightarrow> import_document \<Rightarrow> bool \<Rightarrow> bool \<times> library" where
  \<comment> \<open>Modelled from the spec: \<^verbatim>\<open>import_collection(document, merge) -> success\<close>. If \<^verbatim>\<open>merge\<close> is
      false, replaces any existing collection of the same id entirely; if true, appends the
      incoming records to the existing collection, resolving id collisions by generating new
      ids for the incoming records. Fails on a document with a missing field.\<close>
  "import_collection lib d merge =
     (case (doc_id d, doc_name d, doc_prompts d) of
        (Some cid, Some nm, Some incoming) \<Rightarrow>
          (case map_of (lib_collections lib) cid of
             Some c \<Rightarrow>
               if merge
               then (True,
                     lib\<lparr>lib_collections :=
                           dict_set cid
                             (c\<lparr>coll_prompts :=
                                  coll_prompts c
                                  @ merge_prompts (map rec_id (all_prompts lib)) incoming\<rparr>)
                             (lib_collections lib)\<rparr>)
               else (True,
                     lib\<lparr>lib_collections :=
                           dict_set cid \<lparr>coll_name = nm, coll_prompts = incoming\<rparr>
                             (lib_collections lib)\<rparr>)
           | None \<Rightarrow>
               (True,
                lib\<lparr>lib_collections :=
                      dict_set cid \<lparr>coll_name = nm, coll_prompts = incoming\<rparr>
                        (lib_collections lib)\<rparr>))
      | _ \<Rightarrow> (False, lib))"

definition without_id :: "prompt_record \<Rightarrow> prompt_record" where
  \<comment> \<open>A record with its id blanked: two records with the same image differ at most in
      their ids.\<close>
  "without_id r = r\<lparr>rec_id := []\<rparr>"

section \<open>A small library for the examples\<close>

definition sunset_beach :: prompt_record where
  "sunset_beach =
     \<lparr>rec_id = ''p1'', rec_name = ''Sunset Beach'', rec_prompt = ''a {x} in {y}'',
      rec_negative_prompt = None, rec_tags = [''a'', ''b''],
      rec_settings = Some [(''steps'', JNum 30)], rec_use_count = 0,
      rec_variables = [''x'', ''y''], rec_created_at = 1, rec_updated_at = 1\<rparr>"

definition forest_path :: prompt_record where
  "forest_path =
     \<lparr>rec_id = ''p2'', rec_name = ''Forest Path'', rec_prompt = ''a path in a forest'',
      rec_negative_prompt = Some ''blurry'', rec_tags = [''a''],
      rec_settings = None, rec_use_count = 3,
      rec_variables = [], rec_created_at = 2, rec_updated_at = 2\<rparr>"

definition example_library :: library where
  "example_library =
     \<lparr>lib_collections =
        [(''favorites'', \<lparr>coll_name = ''Favorites'', coll_prompts = []\<rparr>),
         (''nature'', \<lparr>coll_name = ''Nature'', coll_prompts = [sunset_beach, forest_path]\<rparr>)],
      lib_favorites = [''p2'']\<rparr>"

definition example_document :: import_document where
  "example_document =
     \<lparr>doc_id = Some ''nature'', doc_name = Some ''Nature'',
      doc_prompts = Some [sunset_beach\<lparr>rec_name := ''Sunset Dunes''\<rparr>,
                          forest_path\<lparr>rec_id := ''p7''\<rparr>]\<rparr>"

section \<open>Facts about the string and dictionary operations\<close>

lemma map_of_dict_set: "map_of (dict_set k v d) = (map_of d)(k \<mapsto> v)"
  by (induction d) (auto simp: fun_eq_iff)

lemma map_fst_dict_set:
  "map fst (dict_set k v d) = (if k \<in> fst ` set d then map fst d else map fst d @ [k])"
  by (induction d) (auto split: if_splits)

lemma distinct_dict_set: "distinct (map fst d) \<Longrightarrow> distinct (map fst (dict_set k v d))"
  by (simp add: map_fst_dict_set)

lemma set_dict_set: "set (dict_set k v d) \<subseteq> insert (k, v) (set d)"
  by (induction d) (auto split: if_splits)

lemma strip_subset: "set (strip s) \<subseteq> set s"
  by (auto simp: strip_def dest!: set_dropWhileD)

lemma strip_all_space: "\<forall>c\<in>set s. is_space c \<Longrightarrow> strip s = []"
  by (auto simp: strip_def dest: set_dropWhileD)

lemma concat_split_on_subset: "set (concat (split_on sep s)) \<subseteq> set s"
  by (induction s) (auto split: list.splits, blast+)

lemma split_on_subset: "p \<in> set (split_on sep s) \<Longrightarrow> set p \<subseteq> set s"
  using concat_split_on_subset [of sep s] by auto

lemma fold_parse_pair_none:
  "\<forall>p\<in>set ps. CHR ''='' \<notin> set (strip p) \<Longrightarrow> fold parse_pair ps d = d"
  by (induction ps arbitrary: d) (auto simp: parse_pair_def Let_def)

lemma no_equals_no_pair:
  "CHR ''='' \<notin> set vs \<Longrightarrow> \<forall>p\<in>set (split_on CHR '','' vs). CHR ''='' \<notin> set (strip p)"
  using split_on_subset strip_subset by blast


section \<open>Facts about the settings updates\<close>

lemma keys_dict_set: "fst ` set (dict_set k v d) = insert k (fst ` set d)"
proof -
  have "set (map fst (dict_set k v d)) = insert k (set (map fst d))"
    unfolding map_fst_dict_set by auto
  then show ?thesis by simp
qed

lemma keys_apply_saved_setting: "fst ` set (apply_saved_setting kv s) = fst ` set s"
  by (auto simp: apply_saved_setting_def keys_dict_set)

lemma keys_fold_apply_saved: "fst ` set (fold apply_saved_setting saved s) = fst ` set s"
  by (induction saved arbitrary: s) (simp_all add: keys_apply_saved_setting)

lemma map_of_apply_saved_setting:
  "map_of (apply_saved_setting kv s) k =
     (if k = fst kv \<and> k \<in> fst ` set s then Some (snd kv) else map_of s k)"
  by (auto simp: apply_saved_setting_def map_of_dict_set)

lemma map_of_fold_apply_saved:
  "map_of (fold apply_saved_setting saved s) k =
     (if k \<in> fst ` set s
      then (case map_of (rev saved) k of Some v \<Rightarrow> Some v | None \<Rightarrow> map_of s k)
      else None)"
proof (induction saved arbitrary: s)
  case Nil
  then show ?case by (auto simp: map_of_eq_None_iff)
next
  case (Cons kv saved)
  show ?case
    by (cases kv)
       (auto simp: Cons.IH keys_apply_saved_setting map_of_apply_saved_setting map_add_def
             split: option.splits)
qed

lemma keys_set_negative_prompt:
  "fst ` set (set_negative_prompt d s) \<subseteq> insert ''negative_prompt'' (fst ` set s)"
  by (auto simp: set_negative_prompt_def keys_dict_set split: option.splits)

lemma map_of_set_negative_prompt_other:
  "k \<noteq> ''negative_prompt'' \<Longrightarrow> map_of (set_negative_prompt d s) k = map_of s k"
  by (auto simp: set_negative_prompt_def map_of_dict_set split: option.splits)

lemma keys_set_negative_prompt_other:
  "k \<noteq> ''negative_prompt'' \<Longrightarrow> k \<in> fst ` set (set_negative_prompt d s) \<longleftrightarrow> k \<in> fst ` set s"
  by (auto simp: set_negative_prompt_def keys_dict_set split: option.splits)

lemma set_negative_prompt_falsy:
  "rec_negative_prompt d = None \<or> rec_negative_prompt d = Some [] \<Longrightarrow> set_negative_prompt d s = s"
  by (auto simp: set_negative_prompt_def)

section \<open>Facts about the library operations\<close>

lemma update_first_none: "\<forall>x\<in>set xs. \<not> P x \<Longrightarrow> update_first P f xs = xs"
  by (induction xs) auto

lemma length_update_first: "length (update_first P f xs) = length xs"
  by (induction xs) auto

lemma update_first_append:
  "update_first P f (xs @ ys) =
     (if \<exists>x\<in>set xs. P x then update_first P f xs @ ys else xs @ update_first P f ys)"
  by (induction xs) auto

lemma find_update_first_same:
  "(\<And>x. P x \<Longrightarrow> P (f x)) \<Longrightarrow> find P (update_first P f xs) = map_option f (find P xs)"
  by (induction xs) auto

lemma find_update_first_other:
  "(\<And>x. P x \<Longrightarrow> \<not> Q x \<and> \<not> Q (f x)) \<Longrightarrow> find Q (update_first P f xs) = find Q xs"
  by (induction xs) auto

lemma all_prompts_Cons:
  "all_prompts (lib\<lparr>lib_collections := (cid, c) # cs\<rparr>)
     = coll_prompts c @ all_prompts (lib\<lparr>lib_collections := cs\<rparr>)"
  by (simp add: all_prompts_def)

lemma concat_record_usage_in:
  "concat (map (\<lambda>(cid, c). coll_prompts c) (record_usage_in now pid cs))
     = update_first (\<lambda>r. rec_id r = pid) (bump_usage now)
         (concat (map (\<lambda>(cid, c). coll_prompts c) cs))"
proof (induction cs)
  case Nil
  then show ?case by simp
next
  case (Cons p cs)
  obtain cid c where p: "p = (cid, c)" by (cases p)
  show ?case
  proof (cases "pid \<in> rec_id ` set (coll_prompts c)")
    case True
    then have "\<exists>x\<in>set (coll_prompts c). rec_id x = pid" by auto
    with True show ?thesis by (simp add: p update_first_append)
  next
    case False
    then have "\<not> (\<exists>x\<in>set (coll_prompts c). rec_id x = pid)" by auto
    with False show ?thesis by (simp add: p update_first_append Cons.IH)
  qed
qed

lemma all_prompts_record_usage:
  "all_prompts (record_usage now lib pid)
     = update_first (\<lambda>r. rec_id r = pid) (bump_usage now) (all_prompts lib)"
  by (simp add: all_prompts_def record_usage_def concat_record_usage_in)

lemma record_usage_in_unknown:
  "pid \<notin> rec_id ` set (concat (map (\<lambda>(cid, c). coll_prompts c) cs)) \<Longrightarrow> record_usage_in now pid cs = cs"
proof (induction cs)
  case Nil
  then show ?case by simp
next
  case (Cons p cs)
  obtain cid c where p: "p = (cid, c)" by (cases p)
  from Cons.prems have 1: "pid \<notin> rec_id ` set (coll_prompts c)"
    and 2: "pid \<notin> rec_id ` set (concat (map (\<lambda>(cid, c). coll_prompts c) cs))"
    by (simp_all add: p image_Un)
  show ?case using 1 Cons.IH [OF 2] by (simp add: p)
qed

lemma find_None_ids: "find (\<lambda>r. rec_id r = pid) xs = None \<longleftrightarrow> pid \<notin> rec_id ` set xs"
  by (auto simp: find_None_iff)

lemma record_usage_unknown: "get_prompt lib pid = None \<Longrightarrow> record_usage now lib pid = lib"
  by (simp add: get_prompt_def find_None_ids record_usage_def all_prompts_def record_usage_in_unknown)

lemma rec_id_bump_usage: "rec_id (bump_usage now r) = rec_id r"
  by (simp add: bump_usage_def)

lemma fold_max_ge: "a \<le> fold max xs (a::nat)"
  by (induction xs arbitrary: a) (auto intro: order_trans [OF max.cobounded2])

lemma fold_max_bound: "x \<in> set xs \<Longrightarrow> x \<le> fold max xs (a::nat)"
proof (induction xs arbitrary: a)
  case Nil
  then show ?case by simp
next
  case (Cons y ys)
  show ?case
  proof (cases "x = y")
    case True
    have "y \<le> max y a" by simp
    also have "\<dots> \<le> fold max ys (max y a)" by (rule fold_max_ge)
    finally show ?thesis using True by simp
  next
    case False
    with Cons.prems have "x \<in> set ys" by simp
    then show ?thesis using Cons.IH by simp
  qed
qed

lemma fresh_id_fresh: "fresh_id used \<notin> set used"
proof
  assume "fresh_id used \<in> set used"
  then have "length (fresh_id used) \<in> set (map length used)" by simp
  then have "length (fresh_id used) \<le> fold max (map length used) 0"
    by (rule fold_max_bound)
  then show False by (simp add: fresh_id_def)
qed

lemma fresh_id_nonempty: "fresh_id used \<noteq> []"
  by (simp add: fresh_id_def)

lemma map_of_split:
  "map_of cs k = Some c \<Longrightarrow>
     \<exists>pre post. cs = pre @ (k, c) # post \<and> k \<notin> fst ` set pre"
proof (induction cs)
  case Nil
  then show ?case by simp
next
  case (Cons p cs)
  show ?case
  proof (cases "fst p = k")
    case True
    with Cons.prems have "p = (k, c)" by (cases p) simp
    then have "p # cs = [] @ (k, c) # cs \<and> k \<notin> fst ` set []" by simp
    then show ?thesis by blast
  next
    case False
    with Cons.prems have "map_of cs k = Some c" by (cases p) (simp split: if_splits)
    from Cons.IH [OF this] obtain pre post where "cs = pre @ (k, c) # post" "k \<notin> fst ` set pre"
      by blast
    with False have "p # cs = (p # pre) @ (k, c) # post \<and> k \<notin> fst ` set (p # pre)" by auto
    then show ?thesis by blast
  qed
qed

lemma dict_set_split:
  "k \<notin> fst ` set pre \<Longrightarrow> dict_set k v (pre @ (k, c) # post) = pre @ (k, v) # post"
  by (induction pre) auto

lemma all_prompts_dict_set_append:
  assumes "map_of (lib_collections lib) cid = Some c"
  shows "\<exists>A B. all_prompts lib = A @ B
           \<and> all_prompts (lib\<lparr>lib_collections :=
                 dict_set cid (c\<lparr>coll_prompts := coll_prompts c @ new\<rparr>) (lib_collections lib)\<rparr>)
               = A @ new @ B"
proof -
  from map_of_split [OF assms] obtain pre post where
    cs: "lib_collections lib = pre @ (cid, c) # post" and fresh: "cid \<notin> fst ` set pre"
    by blast
  let ?f = "\<lambda>(cid, c). coll_prompts c"
  let ?A = "concat (map ?f pre) @ coll_prompts c"
  let ?B = "concat (map ?f post)"
  have "all_prompts lib = ?A @ ?B"
    by (simp add: all_prompts_def cs)
  moreover have "all_prompts (lib\<lparr>lib_collections :=
                 dict_set cid (c\<lparr>coll_prompts := coll_prompts c @ new\<rparr>) (lib_collections lib)\<rparr>)
               = ?A @ new @ ?B"
    by (simp add: all_prompts_def cs dict_set_split [OF fresh])
  ultimately show ?thesis by blast
qed

lemma find_insert_other:
  "\<not> P r \<Longrightarrow> find P (A @ r # B) = find P (A @ B)"
  by (induction A) auto

lemma filter_insert_fresh:
  "P r \<Longrightarrow> \<forall>x\<in>set (A @ B). \<not> P x \<Longrightarrow> filter P (A @ r # B) = [r]"
  by (auto simp: filter_empty_conv)

lemma find_insert_fresh:
  "P r \<Longrightarrow> \<forall>x\<in>set (A @ B). \<not> P x \<Longrightarrow> find P (A @ r # B) = Some r"
  by (induction A) auto

lemma add_prompt_fails:
  "map_of (lib_collections lib) collection_id = None \<or> strip name = [] \<or> strip prompt = [] \<Longrightarrow>
   add_prompt now lib collection_id name prompt negative_prompt tags settings = (None, lib)"
  by (auto simp: add_prompt_def split: option.splits)

lemma add_prompt_succeeds:
  assumes c: "map_of (lib_collections lib) collection_id = Some c"
    and n: "strip name \<noteq> []" and p: "strip prompt \<noteq> []"
  shows "\<exists>lib'. add_prompt now lib collection_id name prompt negative_prompt tags settings
           = (Some (fresh_id (map rec_id (all_prompts lib))), lib')
         \<and> filter (\<lambda>x. rec_id x = fresh_id (map rec_id (all_prompts lib))) (all_prompts lib')
             = [new_record now (fresh_id (map rec_id (all_prompts lib))) name prompt
                  negative_prompt tags settings]
         \<and> get_prompt lib' (fresh_id (map rec_id (all_prompts lib)))
             = Some (new_record now (fresh_id (map rec_id (all_prompts lib))) name prompt
                  negative_prompt tags settings)
         \<and> (\<forall>other. other \<noteq> fresh_id (map rec_id (all_prompts lib)) \<longrightarrow>
                get_prompt lib' other = get_prompt lib other)
         \<and> length (all_prompts lib') = Suc (length (all_prompts lib))
         \<and> lib_favorites lib' = lib_favorites lib"
proof -
  define nid where "nid = fresh_id (map rec_id (all_prompts lib))"
  define r where "r = new_record now nid name prompt negative_prompt tags settings"
  define lib' where "lib' = lib\<lparr>lib_collections :=
                 dict_set collection_id (c\<lparr>coll_prompts := coll_prompts c @ [r]\<rparr>) (lib_collections lib)\<rparr>"
  have res: "add_prompt now lib collection_id name prompt negative_prompt tags settings = (Some nid, lib')"
    using c n p by (simp add: add_prompt_def Let_def nid_def r_def lib'_def)
  from all_prompts_dict_set_append [OF c, of "[r]"] obtain A B where
    old: "all_prompts lib = A @ B" and new: "all_prompts lib' = A @ r # B"
    unfolding lib'_def by auto
  have idr: "rec_id r = nid" by (simp add: new_record_def r_def)
  have "nid \<notin> set (map rec_id (all_prompts lib))" unfolding nid_def by (rule fresh_id_fresh)
  then have fresh: "\<forall>x\<in>set (A @ B). \<not> rec_id x = nid" unfolding old by auto
  have 1: "filter (\<lambda>x. rec_id x = nid) (all_prompts lib') = [r]"
    unfolding new using idr fresh by (rule filter_insert_fresh)
  have 2: "get_prompt lib' nid = Some r"
    unfolding get_prompt_def new using idr fresh by (rule find_insert_fresh)
  have 3: "get_prompt lib' other = get_prompt lib other" if "other \<noteq> nid" for other
    unfolding get_prompt_def new old using that idr by (simp add: find_insert_other)
  have 4: "length (all_prompts lib') = Suc (length (all_prompts lib))"
    by (simp add: new old)
  have 5: "lib_favorites lib' = lib_favorites lib" by (simp add: lib'_def)
  show ?thesis using res 1 2 3 4 5 unfolding nid_def r_def by blast
qed


lemma dropWhile_strip: "dropWhile is_space (strip s) = strip s"
proof (cases "strip s")
  case Nil
  then show ?thesis by simp
next
  case (Cons a as)
  let ?t = "dropWhile is_space s"
  let ?d = "dropWhile is_space (rev ?t)"
  have u: "strip s = rev ?d" by (simp add: strip_def)
  with Cons have d: "?d \<noteq> []" by auto
  then have t: "?t \<noteq> []" by (metis dropWhile.simps(1) rev.simps(1))
  have "rev ?t = takeWhile is_space (rev ?t) @ ?d" by simp
  then have "last (rev ?t) = last ?d" using d by (metis last_appendR)
  moreover have "last (rev ?t) = hd ?t" using t by (simp add: last_rev)
  moreover have "hd (strip s) = last ?d" using d by (simp add: u hd_rev)
  moreover have "\<not> is_space (hd ?t)" using t by (rule hd_dropWhile)
  ultimately have "\<not> is_space a" using Cons by simp
  then show ?thesis by (simp add: Cons)
qed

lemma strip_strip: "strip (strip s) = strip s"
proof -
  have "strip (strip s) = rev (dropWhile is_space (rev (strip s)))"
    by (simp add: strip_def [of "strip s"] dropWhile_strip)
  also have "\<dots> = strip s"
    by (simp add: strip_def)
  finally show ?thesis .
qed

lemma strip_nonempty: "strip s \<noteq> [] \<Longrightarrow> s \<noteq> []"
  by (auto simp: strip_def)

lemma length_merge_prompts: "length (merge_prompts used rs) = length rs"
  by (induction rs arbitrary: used) (simp_all add: Let_def)

lemma content_merge_prompts: "map without_id (merge_prompts used rs) = map without_id rs"
  by (induction rs arbitrary: used) (simp_all add: Let_def without_id_def)

lemma ids_merge_prompts:
  "distinct (map rec_id (merge_prompts used rs))
   \<and> set (map rec_id (merge_prompts used rs)) \<inter> set used = {}"
proof (induction rs arbitrary: used)
  case Nil
  then show ?case by simp
next
  case (Cons r rs)
  define r' where "r' = (if rec_id r \<in> set used then r\<lparr>rec_id := fresh_id used\<rparr> else r)"
  have new: "rec_id r' \<notin> set used"
    using fresh_id_fresh [of used] by (simp add: r'_def)
  have step: "merge_prompts used (r # rs) = r' # merge_prompts (rec_id r' # used) rs"
    by (simp add: Let_def r'_def)
  from Cons.IH [of "rec_id r' # used"]
  have d: "distinct (map rec_id (merge_prompts (rec_id r' # used) rs))"
    and i: "set (map rec_id (merge_prompts (rec_id r' # used) rs)) \<inter> set (rec_id r' # used) = {}"
    by blast+
  from i have "rec_id r' \<notin> set (map rec_id (merge_prompts (rec_id r' # used) rs))"
    and "set (map rec_id (merge_prompts (rec_id r' # used) rs)) \<inter> set used = {}"
    by auto
  with d new show ?case unfolding step by auto
qed

lemma merge_prompts_no_collision:
  "distinct (map rec_id rs) \<Longrightarrow> set (map rec_id rs) \<inter> set used = {} \<Longrightarrow> merge_prompts used rs = rs"
  by (induction rs arbitrary: used) (auto simp: Let_def)

section \<open>Facts about variable substitution\<close>

lemma fold_parse_pair_map_of:
  "map_of (fold parse_pair ps d) =
     map_of (rev (map (\<lambda>pair. (strip (fst (split_once CHR ''='' (strip pair))),
                               strip (snd (split_once CHR ''='' (strip pair)))))
                   (filter (\<lambda>pair. CHR ''='' \<in> set (strip pair)) ps)) @ d)"
  by (induction ps arbitrary: d)
     (auto simp: parse_pair_def Let_def map_of_dict_set split_beta fun_eq_iff map_add_def
           split: option.splits)

lemma parse_variables_last_wins: "map_of (parse_variables vs) = map_of (rev (stated_pairs vs))"
  by (simp add: parse_variables_def stated_pairs_def fold_parse_pair_map_of)

lemma fold_parse_pair_distinct:
  "distinct (map fst d) \<Longrightarrow> distinct (map fst (fold parse_pair ps d))"
  by (induction ps arbitrary: d) (auto simp: parse_pair_def Let_def split_beta distinct_dict_set)

lemma parse_variables_distinct: "distinct (map fst (parse_variables vs))"
  by (simp add: parse_variables_def fold_parse_pair_distinct)

lemma strip_empty_all_space: "strip s = [] \<Longrightarrow> \<forall>c\<in>set s. is_space c"
proof -
  assume "strip s = []"
  then have "dropWhile is_space (rev (dropWhile is_space s)) = []"
    by (simp add: strip_def)
  then have "\<forall>c\<in>set (dropWhile is_space s). is_space c"
    by (simp add: dropWhile_eq_Nil_conv)
  moreover have "\<forall>c\<in>set (takeWhile is_space s). is_space c"
    by (auto dest: set_takeWhileD)
  moreover have "set s = set (takeWhile is_space s) \<union> set (dropWhile is_space s)"
    by (metis set_append takeWhile_dropWhile_id)
  ultimately show ?thesis by auto
qed

lemma parse_variables_blank: "strip vs = [] \<Longrightarrow> parse_variables vs = []"
proof -
  assume "strip vs = []"
  then have "\<forall>c\<in>set vs. is_space c" by (rule strip_empty_all_space)
  moreover have "\<not> is_space CHR ''=''" by (simp add: is_space_def)
  ultimately have "CHR ''='' \<notin> set vs" by auto
  then show ?thesis
    by (simp add: parse_variables_def fold_parse_pair_none no_equals_no_pair)
qed

lemma substitute_variables_fold:
  "substitute_variables t vs = fold replace_variable (parse_variables vs) t"
proof -
  have "strip [] = []" by (simp add: strip_def)
  then have "parse_variables [] = []" by (rule parse_variables_blank)
  then show ?thesis
    by (auto simp: substitute_variables_def parse_variables_blank)
qed

lemma substitute_placeholders_empty: "substitute_placeholders Map.empty t = t"
  by (induction "Map.empty :: string \<Rightarrow> string option" t rule: substitute_placeholders.induct)
     (auto split: list.splits)

lemma takeWhile_name:
  "brace_free n \<Longrightarrow> takeWhile no_brace (n @ CHR ''}'' # s) = n"
  by (induction n) (auto simp: brace_free_def no_brace_def)

lemma dropWhile_name:
  "brace_free n \<Longrightarrow> dropWhile no_brace (n @ CHR ''}'' # s) = CHR ''}'' # s"
  by (induction n) (auto simp: brace_free_def no_brace_def)

lemma name_split:
  assumes "dropWhile no_brace cs = CHR ''}'' # rest"
  shows "cs = takeWhile no_brace cs @ CHR ''}'' # rest" and "brace_free (takeWhile no_brace cs)"
proof -
  show "cs = takeWhile no_brace cs @ CHR ''}'' # rest"
    using assms by (metis takeWhile_dropWhile_id)
  show "brace_free (takeWhile no_brace cs)"
    by (auto simp: brace_free_def list_all_iff dest: set_takeWhileD)
qed

lemma prefix_placeholder:
  assumes "brace_free k"
  shows "prefix (k @ [CHR ''}'']) cs \<longleftrightarrow>
           takeWhile no_brace cs = k \<and> (\<exists>rest. dropWhile no_brace cs = CHR ''}'' # rest)"
proof
  assume "prefix (k @ [CHR ''}'']) cs"
  then obtain rest where "cs = k @ CHR ''}'' # rest" by (auto simp: prefix_def)
  then show "takeWhile no_brace cs = k \<and> (\<exists>rest. dropWhile no_brace cs = CHR ''}'' # rest)"
    using assms by (simp add: takeWhile_name dropWhile_name)
next
  assume "takeWhile no_brace cs = k \<and> (\<exists>rest. dropWhile no_brace cs = CHR ''}'' # rest)"
  then obtain rest where "takeWhile no_brace cs = k" "dropWhile no_brace cs = CHR ''}'' # rest"
    by blast
  then have "cs = k @ CHR ''}'' # rest" by (metis takeWhile_dropWhile_id)
  then show "prefix (k @ [CHR ''}'']) cs" by (simp add: prefix_def)
qed

lemma replace_is_substitute_placeholders:
  assumes "brace_free k"
  shows "replace t (placeholder k) v = substitute_placeholders [k \<mapsto> v] t"
proof (induction "[k \<mapsto> v]" t rule: substitute_placeholders.induct)
  case 1
  then show ?case by (simp add: placeholder_def)
next
  case (2 c cs)
  show ?case
  proof (cases "c = CHR ''{'' \<and> prefix (k @ [CHR ''}'']) cs")
    case True
    then obtain rest where tk: "takeWhile no_brace cs = k"
      and dr: "dropWhile no_brace cs = CHR ''}'' # rest"
      using prefix_placeholder [OF assms] by blast
    have cs: "cs = k @ CHR ''}'' # rest" using tk dr by (metis takeWhile_dropWhile_id)
    have "drop (length (placeholder k) - 1) cs = rest"
      by (subst cs) (simp add: placeholder_def)
    moreover have "replace rest (placeholder k) v = substitute_placeholders [k \<mapsto> v] rest"
      using "2.hyps"(3) [OF _ dr _ ] True tk by simp
    ultimately show ?thesis
      using True tk dr by (simp add: placeholder_def)
  next
    case False
    have rec: "replace cs (placeholder k) v = substitute_placeholders [k \<mapsto> v] cs"
    proof (cases "c = CHR ''{''")
      case c: True
      show ?thesis
      proof (cases "dropWhile no_brace cs")
        case Nil
        then show ?thesis using "2.hyps"(1) c by simp
      next
        case (Cons d rest)
        show ?thesis
        proof (cases "d = CHR ''}''")
          case d: True
          with False c Cons have "takeWhile no_brace cs \<noteq> k"
            using prefix_placeholder [OF assms, of cs] by auto
          then have "[k \<mapsto> v] (takeWhile no_brace cs) = None" by simp
          then show ?thesis using "2.hyps"(2) [OF c Cons d] by simp
        next
          case d: False
          then show ?thesis using "2.hyps"(4) [OF c Cons d] by simp
        qed
      qed
    next
      case c: False
      then show ?thesis using "2.hyps"(5) by simp
    qed
    have np: "\<not> prefix (placeholder k) (c # cs)"
      using False by (auto simp: placeholder_def)
    have res: "replace (c # cs) (placeholder k) v = c # replace cs (placeholder k) v"
      using np by (auto simp: placeholder_def)
    show ?thesis
    proof (cases "c = CHR ''{''")
      case c: True
      with False have nk: "\<not> (takeWhile no_brace cs = k \<and> (\<exists>rest. dropWhile no_brace cs = CHR ''}'' # rest))"
        using prefix_placeholder [OF assms, of cs] by simp
      show ?thesis
        unfolding res rec using c nk by (auto split: list.splits)
    next
      case c: False
      then show ?thesis unfolding res rec by simp
    qed
  qed
qed

lemma substitute_placeholders_plain:
  "brace_free s \<Longrightarrow> substitute_placeholders m (s @ t) = s @ substitute_placeholders m t"
  by (induction s) (auto simp: brace_free_def no_brace_def)

lemma substitute_placeholders_close:
  "substitute_placeholders m (CHR ''}'' # t) = CHR ''}'' # substitute_placeholders m t"
  by simp

lemma substitute_placeholders_name:
  "brace_free n \<Longrightarrow>
   substitute_placeholders m (n @ CHR ''}'' # t) = n @ CHR ''}'' # substitute_placeholders m t"
  by (simp add: substitute_placeholders_plain)

lemma substitute_placeholders_hole:
  "brace_free n \<Longrightarrow>
   substitute_placeholders m (CHR ''{'' # n @ CHR ''}'' # t) =
     (case m n of
        None \<Rightarrow> CHR ''{'' # n @ CHR ''}'' # substitute_placeholders m t
      | Some v \<Rightarrow> v @ substitute_placeholders m t)"
  by (simp add: takeWhile_name dropWhile_name substitute_placeholders_name split: option.splits)

lemma well_braced_plain: "brace_free s \<Longrightarrow> well_braced (s @ t) = well_braced t"
  by (induction s) (auto simp: brace_free_def no_brace_def)

lemma well_braced_hole:
  "brace_free n \<Longrightarrow> well_braced (CHR ''{'' # n @ CHR ''}'' # t) = well_braced t"
  by (simp add: dropWhile_name)

lemma well_braced_cases:
  assumes "well_braced (c # cs)"
  shows "(c = CHR ''{'' \<and> (\<exists>n rest. cs = n @ CHR ''}'' # rest \<and> brace_free n \<and> well_braced rest))
         \<or> (no_brace c \<and> well_braced cs)"
proof (cases "c = CHR ''{''")
  case True
  with assms obtain rest where d: "dropWhile no_brace cs = CHR ''}'' # rest" and w: "well_braced rest"
    by (auto split: list.splits)
  from name_split [OF d] w True show ?thesis by blast
next
  case False
  with assms show ?thesis by (simp add: no_brace_def)
qed

lemma substitute_step:
  assumes "brace_free v"
  shows "well_braced t \<Longrightarrow>
         substitute_placeholders m (substitute_placeholders [k \<mapsto> v] t)
           = substitute_placeholders (m(k \<mapsto> v)) t
         \<and> well_braced (substitute_placeholders [k \<mapsto> v] t)"
proof (induction t rule: length_induct)
  case (1 t)
  show ?case
  proof (cases t)
    case Nil
    then show ?thesis by simp
  next
    case (Cons c cs)
    with "1.prems" have "well_braced (c # cs)" by simp
    from well_braced_cases [OF this] show ?thesis
    proof
      assume "c = CHR ''{'' \<and> (\<exists>n rest. cs = n @ CHR ''}'' # rest \<and> brace_free n \<and> well_braced rest)"
      then obtain n rest where c: "c = CHR ''{''" and cs: "cs = n @ CHR ''}'' # rest"
        and n: "brace_free n" and w: "well_braced rest"
        by blast
      have "length rest < length t" by (simp add: Cons cs)
      with "1.IH" w have ih:
        "substitute_placeholders m (substitute_placeholders [k \<mapsto> v] rest)
           = substitute_placeholders (m(k \<mapsto> v)) rest"
        "well_braced (substitute_placeholders [k \<mapsto> v] rest)"
        by blast+
      have t: "t = CHR ''{'' # n @ CHR ''}'' # rest" by (simp add: Cons c cs)
      show ?thesis
      proof (cases "n = k")
        case True
        have inner: "substitute_placeholders [k \<mapsto> v] t
                       = v @ substitute_placeholders [k \<mapsto> v] rest"
          unfolding t using substitute_placeholders_hole [OF n, of "[k \<mapsto> v]" rest] True
          by (simp del: substitute_placeholders.simps)
        have outer: "substitute_placeholders (m(k \<mapsto> v)) t
                       = v @ substitute_placeholders (m(k \<mapsto> v)) rest"
          unfolding t using substitute_placeholders_hole [OF n, of "m(k \<mapsto> v)" rest] True
          by (simp del: substitute_placeholders.simps)
        show ?thesis
          unfolding inner outer using ih assms
          by (simp add: substitute_placeholders_plain well_braced_plain)
      next
        case False
        have inner: "substitute_placeholders [k \<mapsto> v] t
                       = CHR ''{'' # n @ CHR ''}'' # substitute_placeholders [k \<mapsto> v] rest"
          unfolding t using substitute_placeholders_hole [OF n, of "[k \<mapsto> v]" rest] False
          by (simp del: substitute_placeholders.simps)
        have outer: "substitute_placeholders (m(k \<mapsto> v)) t
                       = (case m n of
                            None \<Rightarrow> CHR ''{'' # n @ CHR ''}'' # substitute_placeholders (m(k \<mapsto> v)) rest
                          | Some w \<Rightarrow> w @ substitute_placeholders (m(k \<mapsto> v)) rest)"
          unfolding t using substitute_placeholders_hole [OF n, of "m(k \<mapsto> v)" rest] False
          by (simp del: substitute_placeholders.simps)
        have again: "substitute_placeholders m
                       (CHR ''{'' # n @ CHR ''}'' # substitute_placeholders [k \<mapsto> v] rest)
                     = (case m n of
                          None \<Rightarrow> CHR ''{'' # n @ CHR ''}''
                                   # substitute_placeholders m (substitute_placeholders [k \<mapsto> v] rest)
                        | Some w \<Rightarrow> w @ substitute_placeholders m (substitute_placeholders [k \<mapsto> v] rest))"
          by (rule substitute_placeholders_hole [OF n])
        have wb: "well_braced (CHR ''{'' # n @ CHR ''}'' # substitute_placeholders [k \<mapsto> v] rest)"
          using ih(2) well_braced_hole [OF n] by blast
        show ?thesis
          unfolding inner outer again using ih(1) wb
          by (simp del: well_braced.simps substitute_placeholders.simps split: option.splits)
      qed
    next
      assume a: "no_brace c \<and> well_braced cs"
      have "length cs < length t" by (simp add: Cons)
      with "1.IH" a have ih:
        "substitute_placeholders m (substitute_placeholders [k \<mapsto> v] cs)
           = substitute_placeholders (m(k \<mapsto> v)) cs"
        "well_braced (substitute_placeholders [k \<mapsto> v] cs)"
        by blast+
      have s1: "substitute_placeholders f (c # x) = c # substitute_placeholders f x" for f x
        using a by (simp add: no_brace_def)
      have w1: "well_braced (c # x) = well_braced x" for x
        using a by (simp add: no_brace_def)
      show ?thesis
        unfolding Cons s1 w1 using ih by (simp only: simp_thms)
    qed
  qed
qed

lemma fold_replace_is_substitute_placeholders:
  "\<forall>(k, v)\<in>set ps. brace_free k \<and> brace_free v \<Longrightarrow> well_braced t \<Longrightarrow>
   fold replace_variable ps t = substitute_placeholders (map_of ps) t"
proof (induction ps arbitrary: t)
  case Nil
  then show ?case by (simp add: substitute_placeholders_empty)
next
  case (Cons p ps)
  obtain k v where p: "p = (k, v)" by (cases p)
  from Cons.prems p have k: "brace_free k" and v: "brace_free v"
    and rest: "\<forall>(k, v)\<in>set ps. brace_free k \<and> brace_free v"
    by auto
  have one: "replace_variable p t = substitute_placeholders [k \<mapsto> v] t"
    by (simp add: replace_variable_def p replace_is_substitute_placeholders [OF k])
  from substitute_step [OF v Cons.prems(2), of "map_of ps" k]
  have step: "substitute_placeholders (map_of ps) (substitute_placeholders [k \<mapsto> v] t)
           = substitute_placeholders ((map_of ps)(k \<mapsto> v)) t"
    and wb: "well_braced (substitute_placeholders [k \<mapsto> v] t)"
    by blast+
  have "fold replace_variable (p # ps) t = fold replace_variable ps (substitute_placeholders [k \<mapsto> v] t)"
    by (simp add: one)
  also have "\<dots> = substitute_placeholders (map_of ps) (substitute_placeholders [k \<mapsto> v] t)"
    using Cons.IH [OF rest wb] .
  also have "\<dots> = substitute_placeholders (map_of (p # ps)) t"
    by (simp add: step p)
  finally show ?case .
qed

lemma sublist_skip_name:
  "brace_free k \<Longrightarrow> sublist (CHR ''{'' # xs) (k @ CHR ''}'' # rest) \<Longrightarrow> sublist (CHR ''{'' # xs) rest"
proof (induction k)
  case Nil
  then show ?case by (simp add: sublist_Cons_right)
next
  case (Cons a k)
  then have "a \<noteq> CHR ''{''" and "brace_free k"
    by (simp_all add: brace_free_def no_brace_def)
  with Cons show ?case by (simp add: sublist_Cons_right)
qed

lemma placeholder_survives_step:
  assumes n: "brace_free n" and nk: "n \<noteq> k"
  shows "sublist (placeholder n) t \<Longrightarrow> sublist (placeholder n) (substitute_placeholders [k \<mapsto> v] t)"
proof (induction t rule: length_induct)
  case (1 t)
  show ?case
  proof (cases t)
    case Nil
    with "1.prems" show ?thesis by (simp add: placeholder_def)
  next
    case (Cons c cs)
    show ?thesis
    proof (cases "prefix (placeholder n) t")
      case True
      then obtain rest where t: "t = CHR ''{'' # n @ CHR ''}'' # rest"
        by (auto simp: prefix_def placeholder_def)
      have "substitute_placeholders [k \<mapsto> v] t
              = CHR ''{'' # n @ CHR ''}'' # substitute_placeholders [k \<mapsto> v] rest"
        unfolding t using substitute_placeholders_hole [OF n, of "[k \<mapsto> v]" rest] nk
        by (simp del: substitute_placeholders.simps)
      then have "prefix (placeholder n) (substitute_placeholders [k \<mapsto> v] t)"
        by (simp add: placeholder_def prefix_def)
      then show ?thesis by (rule prefix_imp_sublist)
    next
      case False
      with "1.prems" have in_cs: "sublist (placeholder n) cs"
        by (auto simp: Cons placeholder_def sublist_Cons_right)
      show ?thesis
      proof (cases "c = CHR ''{'' \<and> takeWhile no_brace cs = k
                     \<and> (\<exists>rest. dropWhile no_brace cs = CHR ''}'' # rest)")
        case True
        then obtain rest where c: "c = CHR ''{''" and tk: "takeWhile no_brace cs = k"
          and dr: "dropWhile no_brace cs = CHR ''}'' # rest"
          by blast
        from name_split [OF dr] tk have cs: "cs = k @ CHR ''}'' # rest" and k: "brace_free k"
          by simp_all
        have res: "substitute_placeholders [k \<mapsto> v] t = v @ substitute_placeholders [k \<mapsto> v] rest"
          unfolding Cons c cs using substitute_placeholders_hole [OF k, of "[k \<mapsto> v]" rest]
          by (simp del: substitute_placeholders.simps)
        from in_cs have "sublist (placeholder n) rest"
          unfolding cs placeholder_def using k by (rule sublist_skip_name [rotated])
        moreover have "length rest < length t" by (simp add: Cons cs)
        ultimately have "sublist (placeholder n) (substitute_placeholders [k \<mapsto> v] rest)"
          using "1.IH" by blast
        then have "sublist (placeholder n) (v @ substitute_placeholders [k \<mapsto> v] rest)"
          by (simp add: sublist_append)
        then show ?thesis unfolding res .
      next
        case False
        then have res: "substitute_placeholders [k \<mapsto> v] t = c # substitute_placeholders [k \<mapsto> v] cs"
          by (auto simp: Cons split: list.splits)
        have "length cs < length t" by (simp add: Cons)
        with in_cs "1.IH" have "sublist (placeholder n) (substitute_placeholders [k \<mapsto> v] cs)"
          by blast
        then show ?thesis unfolding res sublist_Cons_right by blast
      qed
    qed
  qed
qed

lemma placeholder_survives:
  "\<forall>k\<in>fst ` set ps. brace_free k \<Longrightarrow> brace_free n \<Longrightarrow> n \<notin> fst ` set ps \<Longrightarrow>
   sublist (placeholder n) t \<Longrightarrow> sublist (placeholder n) (fold replace_variable ps t)"
proof (induction ps arbitrary: t)
  case Nil
  then show ?case by simp
next
  case (Cons p ps)
  from Cons.prems have k: "brace_free (fst p)" and nk: "n \<noteq> fst p"
    and rest: "\<forall>k\<in>fst ` set ps. brace_free k" "n \<notin> fst ` set ps"
    by auto
  have "replace_variable p t = substitute_placeholders [fst p \<mapsto> snd p] t"
    by (simp add: replace_variable_def replace_is_substitute_placeholders [OF k])
  moreover have "sublist (placeholder n) (substitute_placeholders [fst p \<mapsto> snd p] t)"
    using Cons.prems(2) nk Cons.prems(4) by (rule placeholder_survives_step)
  ultimately show ?case
    using Cons.IH [OF rest(1) Cons.prems(2) rest(2)] by simp
qed

lemma fold_add_key:
  "fold (\<lambda>k acc. if k \<in> set acc then acc else acc @ [k]) ks acc
     = acc @ filter (\<lambda>k. k \<notin> set acc) (first_occurrences ks)"
proof (induction ks arbitrary: acc)
  case Nil
  then show ?case by simp
next
  case (Cons k ks)
  show ?case
  proof (cases "k \<in> set acc")
    case True
    then have "filter (\<lambda>y. y \<notin> set acc) (filter (\<lambda>y. y \<noteq> k) (first_occurrences ks))
                 = filter (\<lambda>y. y \<notin> set acc) (first_occurrences ks)"
      by (auto intro: filter_cong)
    with True show ?thesis by (simp add: Cons.IH)
  next
    case False
    then have "filter (\<lambda>y. y \<notin> set acc) (filter (\<lambda>y. y \<noteq> k) (first_occurrences ks))
                 = filter (\<lambda>y. y \<noteq> k \<and> y \<notin> set acc) (first_occurrences ks)"
      by (auto intro: filter_cong)
    with False show ?thesis by (simp add: Cons.IH)
  qed
qed

lemma fold_parse_pair_keys:
  "map fst (fold parse_pair ps d)
     = fold (\<lambda>k acc. if k \<in> set acc then acc else acc @ [k])
         (map (\<lambda>pair. strip (fst (split_once CHR ''='' (strip pair))))
            (filter (\<lambda>pair. CHR ''='' \<in> set (strip pair)) ps))
         (map fst d)"
  by (induction ps arbitrary: d)
     (simp_all add: parse_pair_def Let_def split_beta map_fst_dict_set)

lemma parse_variables_keys:
  "map fst (parse_variables vs) = first_occurrences (map fst (stated_pairs vs))"
  by (simp add: parse_variables_def stated_pairs_def fold_parse_pair_keys fold_add_key comp_def)

lemma dict_by_keys:
  "distinct (map fst d) \<Longrightarrow>
   d = map (\<lambda>k. (k, case map_of d k of None \<Rightarrow> z | Some v \<Rightarrow> v)) (map fst d)"
proof (induction d)
  case Nil
  then show ?case by simp
next
  case (Cons p d)
  obtain k v where p: "p = (k, v)" by (cases p)
  from Cons.prems p have k: "k \<notin> fst ` set d" and dist: "distinct (map fst d)" by auto
  have "map (\<lambda>k'. (k', case map_of (p # d) k' of None \<Rightarrow> z | Some v \<Rightarrow> v)) (map fst d)
          = map (\<lambda>k'. (k', case map_of d k' of None \<Rightarrow> z | Some v \<Rightarrow> v)) (map fst d)"
    using k by (intro map_cong) (auto simp: p)
  also have "\<dots> = d" using Cons.IH [OF dist] by simp
  finally show ?case by (simp add: p)
qed

lemma parse_variables_is_stated_mapping: "parse_variables vs = stated_mapping vs"
proof -
  have "parse_variables vs
          = map (\<lambda>k. (k, case map_of (parse_variables vs) k of None \<Rightarrow> [] | Some v \<Rightarrow> v))
              (map fst (parse_variables vs))"
    by (rule dict_by_keys) (rule parse_variables_distinct)
  then show ?thesis
    by (simp add: stated_mapping_def parse_variables_keys parse_variables_last_wins)
qed

section \<open>C1: variable substitution\<close>

text \<open>
  C1, as the code has it. For every template and every variable string:
  the mapping \<^const>\<open>parse_variables\<close> builds is the stated one: its keys are the keys of the
  pairs written, trimmed, each once and in the order in which they are first written, and
  each key has the trimmed value of the last pair written for it. The result is obtained by
  replacing, for each key in that order, every occurrence of \<^verbatim>\<open>{key}\<close> in the text reached so
  far by the key's value. When no key or value of the mapping contains a brace and every
  brace of the template delimits a placeholder, the result is the template with each
  placeholder of a key replaced by its value and everything else copied. When no key
  contains a brace, every placeholder \<^verbatim>\<open>{name}\<close> of the template with a brace-free name that
  is not a key still occurs in the result. The two examples of the specification hold.
\<close>

theorem substitute_variables_sequential:
  "parse_variables variable_string = stated_mapping variable_string
   \<and> map fst (stated_mapping variable_string)
       = first_occurrences (map fst (stated_pairs variable_string))
   \<and> map_of (stated_mapping variable_string) = map_of (rev (stated_pairs variable_string))
   \<and> distinct (map fst (stated_mapping variable_string))
   \<and> substitute_variables template variable_string
       = fold replace_variable (stated_mapping variable_string) template
   \<and> ((\<forall>(key, value)\<in>set (stated_mapping variable_string). brace_free key \<and> brace_free value)
        \<and> well_braced template
      \<longrightarrow> substitute_variables template variable_string
            = substitute_placeholders (map_of (rev (stated_pairs variable_string))) template)
   \<and> ((\<forall>key\<in>fst ` set (stated_mapping variable_string). brace_free key)
      \<longrightarrow> (\<forall>name. brace_free name \<and> name \<notin> fst ` set (stated_mapping variable_string)
                    \<and> sublist (placeholder name) template
                 \<longrightarrow> sublist (placeholder name) (substitute_variables template variable_string)))
   \<and> substitute_variables ''a {x} in {y}'' ''x=cat, y=Paris'' = ''a cat in Paris''
   \<and> substitute_variables ''a {x} in {y}'' ''x=cat'' = ''a cat in {y}''"
proof -
  have 0: "parse_variables variable_string = stated_mapping variable_string"
    by (rule parse_variables_is_stated_mapping)
  have 1: "map fst (stated_mapping variable_string)
       = first_occurrences (map fst (stated_pairs variable_string))"
    unfolding 0 [symmetric] by (rule parse_variables_keys)
  have 2: "map_of (stated_mapping variable_string) = map_of (rev (stated_pairs variable_string))"
    unfolding 0 [symmetric] by (rule parse_variables_last_wins)
  have 3: "distinct (map fst (stated_mapping variable_string))"
    unfolding 0 [symmetric] by (rule parse_variables_distinct)
  have 4: "substitute_variables template variable_string
       = fold replace_variable (stated_mapping variable_string) template"
    unfolding 0 [symmetric] by (rule substitute_variables_fold)
  have 5: "substitute_variables template variable_string
            = substitute_placeholders (map_of (rev (stated_pairs variable_string))) template"
    if "(\<forall>(key, value)\<in>set (stated_mapping variable_string). brace_free key \<and> brace_free value)
        \<and> well_braced template"
    unfolding 2 [symmetric] 4
    using that by (simp add: fold_replace_is_substitute_placeholders)
  have 6: "sublist (placeholder name) (substitute_variables template variable_string)"
    if "\<forall>key\<in>fst ` set (stated_mapping variable_string). brace_free key"
      and "brace_free name \<and> name \<notin> fst ` set (stated_mapping variable_string)
                    \<and> sublist (placeholder name) template" for name
    unfolding 4 using that by (simp add: placeholder_survives)
  have 7: "substitute_variables ''a {x} in {y}'' ''x=cat, y=Paris'' = ''a cat in Paris''"
    by (simp add: substitute_variables_def parse_variables_def parse_pair_def strip_def
          is_space_def split_once_def replace_variable_def placeholder_def)
  have 8: "substitute_variables ''a {x} in {y}'' ''x=cat'' = ''a cat in {y}''"
    by (simp add: substitute_variables_def parse_variables_def parse_pair_def strip_def
          is_space_def split_once_def replace_variable_def placeholder_def)
  show ?thesis using 0 1 2 3 4 5 6 7 8 by blast
qed

theorem substitute_variables_sequential_witness:
  "stated_mapping ''x=1,y=2,x={y}'' = [(''x'', ''{y}''), (''y'', ''2'')]
   \<and> substitute_variables ''{x}'' ''x=1,y=2,x={y}'' = ''2''
   \<and> parse_variables ([CHR 0x85] @ ''x=dog, x = cat ,y=Paris'' @ [CHR 0xA0])
       = [(''x'', ''cat''), (''y'', ''Paris'')]
   \<and> substitute_variables ''a {x} in {y} or {z}'' ''x=dog, x = cat ,y=Paris''
       = substitute_placeholders (map_of [(''y'', ''Paris''), (''x'', ''cat''), (''x'', ''dog'')])
           ''a {x} in {y} or {z}''
   \<and> substitute_placeholders (map_of [(''y'', ''Paris''), (''x'', ''cat''), (''x'', ''dog'')])
         ''a {x} in {y} or {z}''
       = ''a cat in Paris or {z}''
   \<and> sublist ''{z}'' (substitute_variables ''a {x} in {y} or {z}'' ''x=dog, x = cat ,y=Paris'')"
proof -
  have sp: "stated_pairs ''x=dog, x = cat ,y=Paris''
              = [(''x'', ''dog''), (''x'', ''cat''), (''y'', ''Paris'')]"
    by (simp add: stated_pairs_def strip_def is_space_def split_once_def)
  have m: "stated_mapping ''x=dog, x = cat ,y=Paris'' = [(''x'', ''cat''), (''y'', ''Paris'')]"
    by (simp add: stated_mapping_def sp)
  have c: "stated_mapping ''x=1,y=2,x={y}'' = [(''x'', ''{y}''), (''y'', ''2'')]"
    by (simp add: stated_mapping_def stated_pairs_def strip_def is_space_def split_once_def)
  note chain = substitute_variables_sequential [of "''x=1,y=2,x={y}''" "''{x}''"]
  have "substitute_variables ''{x}'' ''x=1,y=2,x={y}''
          = fold replace_variable (stated_mapping ''x=1,y=2,x={y}'') ''{x}''"
    using chain by blast
  then have c2: "substitute_variables ''{x}'' ''x=1,y=2,x={y}'' = ''2''"
    by (simp add: c replace_variable_def placeholder_def)
  have p: "parse_variables ([CHR 0x85] @ ''x=dog, x = cat ,y=Paris'' @ [CHR 0xA0])
             = [(''x'', ''cat''), (''y'', ''Paris'')]"
    by (simp add: parse_variables_def parse_pair_def strip_def is_space_def split_once_def)
  have b: "\<forall>(key, value)\<in>set (stated_mapping ''x=dog, x = cat ,y=Paris'').
             brace_free key \<and> brace_free value"
    by (simp add: m brace_free_def no_brace_def)
  have k: "\<forall>key\<in>fst ` set (stated_mapping ''x=dog, x = cat ,y=Paris''). brace_free key"
    by (simp add: m brace_free_def no_brace_def)
  have w: "well_braced ''a {x} in {y} or {z}''"
    by (simp add: no_brace_def)
  have z: "brace_free ''z'' \<and> ''z'' \<notin> fst ` set (stated_mapping ''x=dog, x = cat ,y=Paris'')
             \<and> sublist (placeholder ''z'') ''a {x} in {y} or {z}''"
    by (simp add: m brace_free_def no_brace_def placeholder_def sublist_code)
  have e: "substitute_placeholders (map_of [(''y'', ''Paris''), (''x'', ''cat''), (''x'', ''dog'')])
             ''a {x} in {y} or {z}'' = ''a cat in Paris or {z}''"
    by (simp add: no_brace_def)
  note main = substitute_variables_sequential
    [of "''x=dog, x = cat ,y=Paris''" "''a {x} in {y} or {z}''"]
  have "substitute_variables ''a {x} in {y} or {z}'' ''x=dog, x = cat ,y=Paris''
       = substitute_placeholders (map_of (rev (stated_pairs ''x=dog, x = cat ,y=Paris'')))
           ''a {x} in {y} or {z}''"
    using main b w by blast
  then have s: "substitute_variables ''a {x} in {y} or {z}'' ''x=dog, x = cat ,y=Paris''
       = substitute_placeholders (map_of [(''y'', ''Paris''), (''x'', ''cat''), (''x'', ''dog'')])
           ''a {x} in {y} or {z}''"
    by (simp only: sp rev.simps append_Nil append_Cons)
  have "sublist (placeholder ''z'') (substitute_variables ''a {x} in {y} or {z}'' ''x=dog, x = cat ,y=Paris'')"
    using main k z by blast
  then have t: "sublist ''{z}'' (substitute_variables ''a {x} in {y} or {z}'' ''x=dog, x = cat ,y=Paris'')"
    by (simp only: placeholder_def append_Cons append_Nil)
  show ?thesis
    using c c2 p s e t by (simp only: simp_thms)
qed

text \<open>
  The claim as stated, for every template and every variable string, fails where a value or
  a key contains braces. With \<^verbatim>\<open>x={y}, y=Paris\<close> the value of \<^verbatim>\<open>x\<close> is \<^verbatim>\<open>{y}\<close>, yet the template
  \<^verbatim>\<open>{x}\<close> yields \<^verbatim>\<open>Paris\<close>: the text put in for \<^verbatim>\<open>x\<close> is replaced again for \<^verbatim>\<open>y\<close>. With
  \<^verbatim>\<open>x}{y=Q\<close> the only key is \<^verbatim>\<open>x}{y\<close>, so \<^verbatim>\<open>x\<close> has no value, yet the placeholder \<^verbatim>\<open>{x}\<close> of
  the template \<^verbatim>\<open>{x}{y}\<close> is not left as it is: the result is \<^verbatim>\<open>Q\<close>.
\<close>

theorem substitute_variables_not_simultaneous:
  "map_of (parse_variables ''x={y}, y=Paris'') ''x'' = Some ''{y}''
   \<and> substitute_variables ''{x}'' ''x={y}, y=Paris'' = ''Paris''
   \<and> sublist ''{x}'' ''{x}{y}''
   \<and> ''x'' \<notin> fst ` set (parse_variables ''x}{y=Q'')
   \<and> substitute_variables ''{x}{y}'' ''x}{y=Q'' = ''Q''"
  by (simp add: substitute_variables_def parse_variables_def parse_pair_def strip_def
        is_space_def split_once_def replace_variable_def placeholder_def sublist_code)

section \<open>C2: the records of a collection, filtered and ordered\<close>

text \<open>
  C2. For a collection of the document, \<^const>\<open>get_prompts_in_collection\<close> returns exactly the
  records of that collection for which the search text, when not empty, occurs
  case-insensitively in the name or in the prompt, and whose tags include every tag of the
  filter. Each such record is returned once. The result is ordered by \<^verbatim>\<open>updated_at\<close>, latest
  first, and records with the same time stamp keep the order they have in the collection.
\<close>

theorem get_prompts_in_collection_exact:
  assumes "map_of (lib_collections lib) collection_id = Some c"
  shows "set (get_prompts_in_collection lib collection_id search tags)
           = {r \<in> set (coll_prompts c).
                (search = [] \<or> sublist (lower search) (lower (rec_name r))
                   \<or> sublist (lower search) (lower (rec_prompt r)))
                \<and> set tags \<subseteq> set (rec_tags r)}
         \<and> length (get_prompts_in_collection lib collection_id search tags)
           = length (filter (\<lambda>r. matches_search search r \<and> matches_tags tags r) (coll_prompts c))
         \<and> sorted_wrt (\<lambda>r r'. rec_updated_at r' \<le> rec_updated_at r)
             (get_prompts_in_collection lib collection_id search tags)
         \<and> (\<forall>t. filter (\<lambda>r. rec_updated_at r = t)
                  (get_prompts_in_collection lib collection_id search tags)
                = filter (\<lambda>r. rec_updated_at r = t)
                    (filter (\<lambda>r. matches_search search r \<and> matches_tags tags r) (coll_prompts c)))"
proof -
  let ?kept = "filter (\<lambda>r. matches_search search r \<and> matches_tags tags r) (coll_prompts c)"
  have res: "get_prompts_in_collection lib collection_id search tags
               = sort_key (\<lambda>r. - rec_updated_at r) ?kept"
    using assms by (simp add: get_prompts_in_collection_def)
  have 1: "set (sort_key (\<lambda>r. - rec_updated_at r) ?kept)
           = {r \<in> set (coll_prompts c).
                (search = [] \<or> sublist (lower search) (lower (rec_name r))
                   \<or> sublist (lower search) (lower (rec_prompt r)))
                \<and> set tags \<subseteq> set (rec_tags r)}"
    by (auto simp: matches_search_def matches_tags_def)
  have 2: "length (sort_key (\<lambda>r. - rec_updated_at r) ?kept) = length ?kept"
    by simp
  have "sorted (map (\<lambda>r. - rec_updated_at r) (sort_key (\<lambda>r. - rec_updated_at r) ?kept))"
    by (rule sorted_sort_key)
  then have 3: "sorted_wrt (\<lambda>r r'. rec_updated_at r' \<le> rec_updated_at r)
                  (sort_key (\<lambda>r. - rec_updated_at r) ?kept)"
    by (simp add: sorted_map)
  have 4: "filter (\<lambda>r. rec_updated_at r = t) (sort_key (\<lambda>r. - rec_updated_at r) ?kept)
             = filter (\<lambda>r. rec_updated_at r = t) ?kept" for t
    using sort_key_stable [of "\<lambda>r. - rec_updated_at r" "- t" ?kept] by simp
  show ?thesis unfolding res using 1 2 3 4 by blast
qed

theorem get_prompts_in_collection_exact_witness:
  "get_prompts_in_collection example_library ''nature'' ''BEACH'' [] = [sunset_beach]
   \<and> get_prompts_in_collection example_library ''nature'' [] [] = [forest_path, sunset_beach]
   \<and> get_prompts_in_collection example_library ''nature'' [] [''a'', ''b''] = [sunset_beach]
   \<and> get_prompts_in_collection example_library ''nature'' [] [''a'', ''c''] = []
   \<and> sorted_wrt (\<lambda>r r'. rec_updated_at r' \<le> rec_updated_at r)
        (get_prompts_in_collection example_library ''nature'' [] [])"
proof -
  have c: "map_of (lib_collections example_library) ''nature''
             = Some \<lparr>coll_name = ''Nature'', coll_prompts = [sunset_beach, forest_path]\<rparr>"
    by (simp add: example_library_def)
  have s: "sorted_wrt (\<lambda>r r'. rec_updated_at r' \<le> rec_updated_at r)
        (get_prompts_in_collection example_library ''nature'' [] [])"
    using get_prompts_in_collection_exact [OF c, of "[]" "[]"] by blast
  have l: "lower ''BEACH'' = ''beach''" "lower ''Sunset Beach'' = ''sunset beach''"
    "lower ''Forest Path'' = ''forest path''" "lower ''a path in a forest'' = ''a path in a forest''"
    "lower ''a {x} in {y}'' = ''a {x} in {y}''"
    by code_simp+
  have 1: "get_prompts_in_collection example_library ''nature'' ''BEACH'' [] = [sunset_beach]"
    by (simp add: get_prompts_in_collection_def c matches_search_def matches_tags_def
          sunset_beach_def forest_path_def l sublist_code)
  have 2: "get_prompts_in_collection example_library ''nature'' [] [] = [forest_path, sunset_beach]"
    by (simp add: get_prompts_in_collection_def c matches_search_def matches_tags_def
          sunset_beach_def forest_path_def)
  have 3: "get_prompts_in_collection example_library ''nature'' [] [''a'', ''b''] = [sunset_beach]"
    by (simp add: get_prompts_in_collection_def c matches_search_def matches_tags_def
          sunset_beach_def forest_path_def)
  have 4: "get_prompts_in_collection example_library ''nature'' [] [''a'', ''c''] = []"
    by (simp add: get_prompts_in_collection_def c matches_search_def matches_tags_def
          sunset_beach_def forest_path_def)
  show ?thesis using 1 2 3 4 s by blast
qed

section \<open>C3: importing with merge\<close>

text \<open>
  C3. Let the document to import be well formed and name a collection the library has. Then
  \<^const>\<open>import_collection\<close> with \<^verbatim>\<open>merge = true\<close> succeeds, and the collection afterwards holds
  the records it had, unchanged and in their places, followed by one record for each incoming
  record, equal to it up to its id. The ids of the added records differ from one another and
  from every id the library had, so an incoming record whose id was in use stands beside the
  record that had the id; incoming records whose ids collide with nothing are added as they
  are. Every other collection and the favorites are unchanged, the number of records grows
  by the number of incoming records, and ids that were unique stay unique.
\<close>

theorem import_merge_keeps_every_record:
  assumes c: "map_of (lib_collections lib) cid = Some c"
    and d: "doc_id d = Some cid" "doc_name d = Some nm" "doc_prompts d = Some incoming"
  shows "\<exists>lib' added.
           import_collection lib d True = (True, lib')
           \<and> map_of (lib_collections lib') cid = Some (c\<lparr>coll_prompts := coll_prompts c @ added\<rparr>)
           \<and> length added = length incoming
           \<and> map without_id added = map without_id incoming
           \<and> distinct (map rec_id added)
           \<and> set (map rec_id added) \<inter> set (map rec_id (all_prompts lib)) = {}
           \<and> (distinct (map rec_id incoming)
                \<and> set (map rec_id incoming) \<inter> set (map rec_id (all_prompts lib)) = {}
              \<longrightarrow> added = incoming)
           \<and> (\<forall>other. other \<noteq> cid \<longrightarrow>
                 map_of (lib_collections lib') other = map_of (lib_collections lib) other)
           \<and> map fst (lib_collections lib') = map fst (lib_collections lib)
           \<and> lib_favorites lib' = lib_favorites lib
           \<and> length (all_prompts lib') = length (all_prompts lib) + length incoming
           \<and> (distinct (map rec_id (all_prompts lib)) \<longrightarrow> distinct (map rec_id (all_prompts lib')))"
proof -
  define used where "used = map rec_id (all_prompts lib)"
  define added where "added = merge_prompts used incoming"
  define lib' where "lib' = lib\<lparr>lib_collections :=
      dict_set cid (c\<lparr>coll_prompts := coll_prompts c @ added\<rparr>) (lib_collections lib)\<rparr>"
  have res: "import_collection lib d True = (True, lib')"
    using c d by (simp add: import_collection_def lib'_def added_def used_def)
  have 1: "map_of (lib_collections lib') cid = Some (c\<lparr>coll_prompts := coll_prompts c @ added\<rparr>)"
    by (simp add: lib'_def map_of_dict_set)
  have 2: "length added = length incoming"
    by (simp add: added_def length_merge_prompts)
  have 3: "map without_id added = map without_id incoming"
    by (simp add: added_def content_merge_prompts)
  have 4: "distinct (map rec_id added)" and 5: "set (map rec_id added) \<inter> set used = {}"
    using ids_merge_prompts [of used incoming] by (simp_all add: added_def)
  have 6: "added = incoming"
    if "distinct (map rec_id incoming) \<and> set (map rec_id incoming) \<inter> set used = {}"
    using that by (simp add: added_def merge_prompts_no_collision)
  have 7: "map_of (lib_collections lib') other = map_of (lib_collections lib) other"
    if "other \<noteq> cid" for other
    using that by (simp add: lib'_def map_of_dict_set)
  have "cid \<in> fst ` set (lib_collections lib)"
    using c by (metis map_of_eq_None_iff option.distinct(1))
  then have 8: "map fst (lib_collections lib') = map fst (lib_collections lib)"
    by (simp add: lib'_def map_fst_dict_set)
  have 9: "lib_favorites lib' = lib_favorites lib"
    by (simp add: lib'_def)
  from all_prompts_dict_set_append [OF c, of added] obtain A B where
    old: "all_prompts lib = A @ B" and new: "all_prompts lib' = A @ added @ B"
    unfolding lib'_def by blast
  have 10: "length (all_prompts lib') = length (all_prompts lib) + length incoming"
    by (simp add: old new 2)
  have 11: "distinct (map rec_id (all_prompts lib'))" if "distinct (map rec_id (all_prompts lib))"
  proof -
    have "set (map rec_id added) \<inter> set (map rec_id (A @ B)) = {}"
      using 5 by (simp add: used_def old)
    with that 4 show ?thesis
      unfolding old new by auto
  qed
  show ?thesis
    using res 1 2 3 4 5 6 7 8 9 10 11 unfolding used_def by blast
qed

theorem import_merge_keeps_every_record_witness:
  "import_collection example_library example_document True
     = (True,
        example_library\<lparr>lib_collections :=
          [(''favorites'', \<lparr>coll_name = ''Favorites'', coll_prompts = []\<rparr>),
           (''nature'', \<lparr>coll_name = ''Nature'',
              coll_prompts = [sunset_beach, forest_path,
                              sunset_beach\<lparr>rec_name := ''Sunset Dunes'', rec_id := ''000''\<rparr>,
                              forest_path\<lparr>rec_id := ''p7''\<rparr>]\<rparr>)]\<rparr>)
   \<and> (\<exists>lib' added.
         import_collection example_library example_document True = (True, lib')
         \<and> length added = 2
         \<and> map_of (lib_collections lib') ''nature''
             = Some \<lparr>coll_name = ''Nature'', coll_prompts = [sunset_beach, forest_path] @ added\<rparr>
         \<and> distinct (map rec_id added))"
proof -
  have c: "map_of (lib_collections example_library) ''nature''
             = Some \<lparr>coll_name = ''Nature'', coll_prompts = [sunset_beach, forest_path]\<rparr>"
    by (simp add: example_library_def)
  have d: "doc_id example_document = Some ''nature''" "doc_name example_document = Some ''Nature''"
    "doc_prompts example_document
       = Some [sunset_beach\<lparr>rec_name := ''Sunset Dunes''\<rparr>, forest_path\<lparr>rec_id := ''p7''\<rparr>]"
    by (simp_all add: example_document_def)
  have 1: "import_collection example_library example_document True
     = (True,
        example_library\<lparr>lib_collections :=
          [(''favorites'', \<lparr>coll_name = ''Favorites'', coll_prompts = []\<rparr>),
           (''nature'', \<lparr>coll_name = ''Nature'',
              coll_prompts = [sunset_beach, forest_path,
                              sunset_beach\<lparr>rec_name := ''Sunset Dunes'', rec_id := ''000''\<rparr>,
                              forest_path\<lparr>rec_id := ''p7''\<rparr>]\<rparr>)]\<rparr>)"
    by (simp add: import_collection_def example_document_def example_library_def
          all_prompts_def sunset_beach_def forest_path_def fresh_id_def Let_def)
  have 2: "\<exists>lib' added.
         import_collection example_library example_document True = (True, lib')
         \<and> length added = 2
         \<and> map_of (lib_collections lib') ''nature''
             = Some \<lparr>coll_name = ''Nature'', coll_prompts = [sunset_beach, forest_path] @ added\<rparr>
         \<and> distinct (map rec_id added)"
    using import_merge_keeps_every_record [OF c d] by auto
  show ?thesis using 1 2 by blast
qed

section \<open>C4: the favorites collection is not deleted\<close>

text \<open>
  C4. For every document of the library and every implementation of the library's
  \<^verbatim>\<open>delete_collection\<close>: when the display name given to \<^const>\<open>delete_collection_handler\<close>
  resolves to the reserved identifier \<^verbatim>\<open>favorites\<close>, the handler reports the warning
  \<^const>\<open>CannotDeleteFavorites\<close> and returns the document as it was. Whenever the handler
  changes the document, it did so by the library's \<^verbatim>\<open>delete_collection\<close> on an identifier
  other than \<^verbatim>\<open>favorites\<close>.
\<close>

theorem delete_favorites_refused:
  "(extract_collection_id (names doc) collection_display = Some ''favorites''
      \<longrightarrow> delete_collection_handler names delete doc collection_display
            = (CannotDeleteFavorites, doc))
   \<and> (snd (delete_collection_handler names delete doc collection_display)
         \<noteq> doc
      \<longrightarrow> (\<exists>collection_id. collection_id \<noteq> ''favorites''
             \<and> extract_collection_id (names doc) collection_display = Some collection_id
             \<and> snd (delete_collection_handler names delete doc
                      collection_display)
                 = snd (delete doc collection_id)))"
  by (auto simp: delete_collection_handler_def split: option.splits prod.splits bool.splits)

theorem delete_favorites_refused_witness:
  "delete_collection_handler (\<lambda>lib. lib) (\<lambda>lib cid. (True, filter (\<lambda>p. snd p \<noteq> cid) lib))
       [(''Favorites'', ''favorites''), (''My set'', ''my_set'')] ''Favorites''
     = (CannotDeleteFavorites, [(''Favorites'', ''favorites''), (''My set'', ''my_set'')])"
proof -
  have h: "extract_collection_id ((\<lambda>lib. lib) [(''Favorites'', ''favorites''), (''My set'', ''my_set'')])
             ''Favorites'' = Some ''favorites''"
    by (simp add: extract_collection_id_def)
  show ?thesis
    using h delete_favorites_refused [where names = "\<lambda>lib. lib"
        and delete = "\<lambda>lib cid. (True, filter (\<lambda>p. snd p \<noteq> cid) lib)"
        and doc = "[(''Favorites'', ''favorites''), (''My set'', ''my_set'')]"
        and collection_display = "''Favorites''"]
    by blast
qed

section \<open>C5: adding a prompt\<close>

text \<open>
  C5. \<^const>\<open>add_prompt\<close> fails and returns the document as it is when the collection id is
  unknown or the name or the prompt is empty after trimming whitespace. Otherwise it returns
  an id that no record of the document had, and in the new document exactly one record has
  that id: \<^const>\<open>get_prompt\<close> finds it, its name, prompt and tags are the ones given and its
  \<^verbatim>\<open>use_count\<close> is 0. Reached through the save handler \<^const>\<open>save_current_prompt\<close>: a name that
  is empty after trimming is refused before the library is called; an unknown collection or a
  prompt of whitespace only leaves the document as it is and is not reported as saved;
  otherwise the handler reports the save, and the record is stored under the trimmed name
  with the tags parsed from the comma-separated text.
\<close>

theorem add_prompt_contract:
  "((map_of (lib_collections lib) collection_id = None \<or> strip name = [] \<or> strip prompt = [])
      \<longrightarrow> add_prompt now lib collection_id name prompt negative_prompt tags settings = (None, lib))
   \<and> (map_of (lib_collections lib) collection_id \<noteq> None \<and> strip name \<noteq> [] \<and> strip prompt \<noteq> []
      \<longrightarrow> (\<exists>new_id lib' r.
             add_prompt now lib collection_id name prompt negative_prompt tags settings
               = (Some new_id, lib')
             \<and> new_id \<notin> rec_id ` set (all_prompts lib)
             \<and> filter (\<lambda>x. rec_id x = new_id) (all_prompts lib') = [r]
             \<and> get_prompt lib' new_id = Some r
             \<and> rec_name r = name \<and> rec_prompt r = prompt \<and> rec_tags r = tags
             \<and> rec_use_count r = 0
             \<and> length (all_prompts lib') = Suc (length (all_prompts lib))))
   \<and> (strip name = []
      \<longrightarrow> save_current_prompt (add_prompt_values now) lib host_settings name collection_id prompt
            negative_prompt tags_str include_settings = (ProvideName, lib))
   \<and> (map_of (lib_collections lib) collection_id = None \<or> strip prompt = [] \<and> prompt \<noteq> []
      \<longrightarrow> snd (save_current_prompt (add_prompt_values now) lib host_settings name collection_id prompt
                 negative_prompt tags_str include_settings) = lib
          \<and> fst (save_current_prompt (add_prompt_values now) lib host_settings name collection_id prompt
                 negative_prompt tags_str include_settings) \<noteq> SavedPrompt name)
   \<and> (map_of (lib_collections lib) collection_id \<noteq> None \<and> strip name \<noteq> [] \<and> strip prompt \<noteq> []
      \<longrightarrow> fst (save_current_prompt (add_prompt_values now) lib host_settings name collection_id prompt
                 negative_prompt tags_str include_settings) = SavedPrompt name
          \<and> (\<exists>r. get_prompt
                   (snd (save_current_prompt (add_prompt_values now) lib host_settings name collection_id
                           prompt negative_prompt tags_str include_settings))
                   (fresh_id (map rec_id (all_prompts lib))) = Some r
                \<and> rec_name r = strip name \<and> rec_prompt r = prompt
                \<and> rec_tags r = parse_tags tags_str \<and> rec_use_count r = 0))"
proof -
  let ?save = "save_current_prompt (add_prompt_values now) lib host_settings name collection_id prompt
                 negative_prompt tags_str include_settings"
  let ?nid = "fresh_id (map rec_id (all_prompts lib))"
  have A: "add_prompt now lib collection_id name prompt negative_prompt tags settings = (None, lib)"
    if "map_of (lib_collections lib) collection_id = None \<or> strip name = [] \<or> strip prompt = []"
    using that by (rule add_prompt_fails)
  have B: "\<exists>new_id lib' r.
             add_prompt now lib collection_id name prompt negative_prompt tags settings
               = (Some new_id, lib')
             \<and> new_id \<notin> rec_id ` set (all_prompts lib)
             \<and> filter (\<lambda>x. rec_id x = new_id) (all_prompts lib') = [r]
             \<and> get_prompt lib' new_id = Some r
             \<and> rec_name r = name \<and> rec_prompt r = prompt \<and> rec_tags r = tags
             \<and> rec_use_count r = 0
             \<and> length (all_prompts lib') = Suc (length (all_prompts lib))"
    if k: "map_of (lib_collections lib) collection_id \<noteq> None" and n: "strip name \<noteq> []"
      and p: "strip prompt \<noteq> []"
  proof -
    from k obtain c where c: "map_of (lib_collections lib) collection_id = Some c" by auto
    have f: "?nid \<notin> rec_id ` set (all_prompts lib)"
      using fresh_id_fresh [of "map rec_id (all_prompts lib)"] by simp
    from add_prompt_succeeds [OF c n p, of now negative_prompt tags settings] obtain lib' where
      "add_prompt now lib collection_id name prompt negative_prompt tags settings = (Some ?nid, lib')"
      "filter (\<lambda>x. rec_id x = ?nid) (all_prompts lib')
         = [new_record now ?nid name prompt negative_prompt tags settings]"
      "get_prompt lib' ?nid = Some (new_record now ?nid name prompt negative_prompt tags settings)"
      "length (all_prompts lib') = Suc (length (all_prompts lib))"
      by blast
    moreover have "rec_name (new_record now ?nid name prompt negative_prompt tags settings) = name"
      "rec_prompt (new_record now ?nid name prompt negative_prompt tags settings) = prompt"
      "rec_tags (new_record now ?nid name prompt negative_prompt tags settings) = tags"
      "rec_use_count (new_record now ?nid name prompt negative_prompt tags settings) = 0"
      by (simp_all add: new_record_def)
    ultimately show ?thesis using f by blast
  qed
  have C: "?save = (ProvideName, lib)" if "strip name = []"
    using that by (simp add: save_current_prompt_def)
  have D1: "snd ?save = lib \<and> fst ?save \<noteq> SavedPrompt name"
    if "map_of (lib_collections lib) collection_id = None"
  proof -
    have "add_prompt now lib collection_id name' prompt' negative_prompt' tags' settings'
            = (None, lib)" for name' prompt' negative_prompt' tags' settings'
      using that by (simp add: add_prompt_fails)
    then have "add_prompt_values now lib collection_id name' prompt' negative_prompt' tags' settings'
            = (None, lib)" for name' prompt' negative_prompt' tags' settings'
      by (simp add: add_prompt_values_def split: json.splits)
    then show ?thesis
      by (simp add: save_current_prompt_def Let_def)
  qed
  have D2: "snd ?save = lib \<and> fst ?save \<noteq> SavedPrompt name"
    if "strip prompt = [] \<and> prompt \<noteq> []"
  proof -
    have "add_prompt now lib collection_id name' prompt negative_prompt' tags' settings'
            = (None, lib)" for name' negative_prompt' tags' settings'
      using that by (simp add: add_prompt_fails)
    then have "add_prompt_values now lib collection_id name' (JStr prompt) negative_prompt' tags'
                 settings' = (None, lib)" for name' negative_prompt' tags' settings'
      by (simp add: add_prompt_values_def)
    then show ?thesis
      using that by (simp add: save_current_prompt_def Let_def)
  qed
  have E: "fst ?save = SavedPrompt name
          \<and> (\<exists>r. get_prompt (snd ?save) ?nid = Some r
                \<and> rec_name r = strip name \<and> rec_prompt r = prompt
                \<and> rec_tags r = parse_tags tags_str \<and> rec_use_count r = 0)"
    if k: "map_of (lib_collections lib) collection_id \<noteq> None" and n: "strip name \<noteq> []"
      and p: "strip prompt \<noteq> []"
  proof -
    from k obtain c where c: "map_of (lib_collections lib) collection_id = Some c" by auto
    have n': "strip (strip name) \<noteq> []" using n by (simp add: strip_strip)
    let ?settings = "capture_settings include_settings
                       (case host_settings of None \<Rightarrow> [] | Some s \<Rightarrow> s)"
    let ?r = "new_record now ?nid (strip name) prompt negative_prompt (parse_tags tags_str) ?settings"
    from add_prompt_succeeds [OF c n' p, of now negative_prompt "parse_tags tags_str" ?settings]
    obtain lib' where
      r: "add_prompt now lib collection_id (strip name) prompt negative_prompt
            (parse_tags tags_str) ?settings = (Some ?nid, lib')"
      and g: "get_prompt lib' ?nid = Some ?r"
      by blast
    have r': "add_prompt_values now lib collection_id (strip name) (JStr prompt)
            (JStr negative_prompt) (parse_tags tags_str) ?settings = (Some ?nid, lib')"
      using r by (simp add: add_prompt_values_def)
    have s: "?save = (SavedPrompt name, lib')"
      using n p r' strip_nonempty [OF n] strip_nonempty [OF p]
      by (simp add: save_current_prompt_def Let_def fresh_id_nonempty)
    have "rec_name ?r = strip name \<and> rec_prompt ?r = prompt
            \<and> rec_tags ?r = parse_tags tags_str \<and> rec_use_count ?r = 0"
      by (simp add: new_record_def)
    with s g show ?thesis by auto
  qed
  show ?thesis using A B C D1 D2 E by blast
qed

theorem add_prompt_contract_witness:
  "add_prompt 7 example_library ''nowhere'' ''Dunes'' ''sand {x}'' [] [''a''] []
     = (None, example_library)
   \<and> add_prompt 7 example_library ''nature'' ''  '' ''sand {x}'' [] [''a''] []
     = (None, example_library)
   \<and> (\<exists>new_id lib' r.
         add_prompt 7 example_library ''nature'' ''Dunes'' ''sand {x}'' [] [''a''] []
           = (Some new_id, lib')
         \<and> get_prompt lib' new_id = Some r
         \<and> rec_name r = ''Dunes'' \<and> rec_prompt r = ''sand {x}'' \<and> rec_tags r = [''a'']
         \<and> rec_use_count r = 0)
   \<and> save_current_prompt (add_prompt_values 7) example_library None ''  '' ''nature'' ''sand {x}'' []
         ''a, b'' False = (ProvideName, example_library)
   \<and> save_current_prompt (add_prompt_values 7) example_library None [CHR 0xA0] ''nature''
         ''sand {x}'' [] ''a, b'' False = (ProvideName, example_library)"
proof -
  have unknown: "map_of (lib_collections example_library) ''nowhere'' = None"
    by (simp add: example_library_def)
  have known: "map_of (lib_collections example_library) ''nature'' \<noteq> None"
    by (simp add: example_library_def)
  have blank: "strip ''  '' = []"
    by (simp add: strip_def is_space_def)
  have name: "strip ''Dunes'' \<noteq> []"
    by (simp add: strip_def is_space_def)
  have prompt: "strip ''sand {x}'' \<noteq> []"
    by (simp add: strip_def is_space_def)
  have 1: "add_prompt 7 example_library ''nowhere'' ''Dunes'' ''sand {x}'' [] [''a''] []
             = (None, example_library)"
    using unknown
      add_prompt_contract [where lib = example_library and collection_id = "''nowhere''"
        and name = "''Dunes''" and prompt = "''sand {x}''" and now = 7
        and negative_prompt = "[]" and tags = "[''a'']" and settings = "[]"]
    by blast
  have 2: "add_prompt 7 example_library ''nature'' ''  '' ''sand {x}'' [] [''a''] []
             = (None, example_library)"
    using blank
      add_prompt_contract [where lib = example_library and collection_id = "''nature''"
        and name = "''  ''" and prompt = "''sand {x}''" and now = 7
        and negative_prompt = "[]" and tags = "[''a'']" and settings = "[]"]
    by blast
  have 3: "\<exists>new_id lib' r.
         add_prompt 7 example_library ''nature'' ''Dunes'' ''sand {x}'' [] [''a''] []
           = (Some new_id, lib')
         \<and> get_prompt lib' new_id = Some r
         \<and> rec_name r = ''Dunes'' \<and> rec_prompt r = ''sand {x}'' \<and> rec_tags r = [''a'']
         \<and> rec_use_count r = 0"
    using known name prompt
      add_prompt_contract [where lib = example_library and collection_id = "''nature''"
        and name = "''Dunes''" and prompt = "''sand {x}''" and now = 7
        and negative_prompt = "[]" and tags = "[''a'']" and settings = "[]"]
    by blast
  have 4: "save_current_prompt (add_prompt_values 7) example_library None ''  '' ''nature'' ''sand {x}''
             [] ''a, b'' False = (ProvideName, example_library)"
    using blank
      add_prompt_contract [where lib = example_library and collection_id = "''nature''"
        and name = "''  ''" and prompt = "''sand {x}''" and now = 7
        and negative_prompt = "[]" and host_settings = None and tags_str = "''a, b''"
        and include_settings = False]
    by blast
  have nbsp: "strip [CHR 0xA0] = []"
    by (simp add: strip_def is_space_def)
  have 5: "save_current_prompt (add_prompt_values 7) example_library None [CHR 0xA0] ''nature''
             ''sand {x}'' [] ''a, b'' False = (ProvideName, example_library)"
    using nbsp
      add_prompt_contract [where lib = example_library and collection_id = "''nature''"
        and name = "[CHR 0xA0]" and prompt = "''sand {x}''" and now = 7
        and negative_prompt = "[]" and host_settings = None and tags_str = "''a, b''"
        and include_settings = False]
    by blast
  show ?thesis using 1 2 3 4 5 by blast
qed

section \<open>C6: favorites\<close>

text \<open>
  C6. \<^const>\<open>add_to_favorites\<close> on an id that is in the favorites reports failure and returns the
  document as it is; so does \<^const>\<open>remove_from_favorites\<close> on an id that is not. After an
  \<^const>\<open>add_to_favorites\<close> that reports success the id is in the favorites, and a second
  \<^const>\<open>add_to_favorites\<close> reports failure and returns the document as it is, so the id stays
  in the favorites. The handler \<^const>\<open>toggle_favorite\<close> tests membership first, so with this
  library it removes an id that is in the favorites, adds one that is not, and reports
  neither failure.
\<close>

theorem favorites_idempotent:
  "(is_in_favorites lib pid \<longrightarrow>
      add_to_favorites lib pid = (False, lib))
   \<and> (\<not> is_in_favorites lib pid \<longrightarrow>
      remove_from_favorites lib pid = (False, lib))
   \<and> (fst (add_to_favorites lib pid) \<longrightarrow>
      is_in_favorites (snd (add_to_favorites lib pid)) pid
      \<and> add_to_favorites (snd (add_to_favorites lib pid)) pid
          = (False, snd (add_to_favorites lib pid)))
   \<and> (pid \<noteq> [] \<longrightarrow>
      fst (toggle_favorite is_in_favorites add_to_favorites remove_from_favorites lib (Some pid))
        = (if is_in_favorites lib pid then RemovedFromFavorites else AddedToFavorites)
      \<and> is_in_favorites
            (snd (toggle_favorite is_in_favorites add_to_favorites remove_from_favorites lib
                   (Some pid))) pid
          = (\<not> is_in_favorites lib pid))"
  by (simp add: is_in_favorites_def add_to_favorites_def remove_from_favorites_def
        toggle_favorite_def)

theorem favorites_idempotent_witness:
  "add_to_favorites example_library ''p2'' = (False, example_library)
   \<and> remove_from_favorites example_library ''p1'' = (False, example_library)
   \<and> fst (add_to_favorites example_library ''p1'')
   \<and> is_in_favorites (snd (add_to_favorites example_library ''p1'')) ''p1''
   \<and> add_to_favorites (snd (add_to_favorites example_library ''p1'')) ''p1''
       = (False, snd (add_to_favorites example_library ''p1''))"
proof -
  have yes: "is_in_favorites example_library ''p2''"
    by (simp add: is_in_favorites_def example_library_def)
  have no: "\<not> is_in_favorites example_library ''p1''"
    by (simp add: is_in_favorites_def example_library_def)
  have ok: "fst (add_to_favorites example_library ''p1'')"
    by (simp add: add_to_favorites_def example_library_def)
  show ?thesis
    using yes no ok
      favorites_idempotent [of example_library "''p2''"]
      favorites_idempotent [of example_library "''p1''"]
    by blast
qed

section \<open>C7: recording a use\<close>

text \<open>
  C7. \<^const>\<open>record_usage\<close> on an id that \<^const>\<open>get_prompt\<close> does not find returns the document as
  it is. On an id it finds, the record found afterwards under that id is the one found
  before with \<^verbatim>\<open>use_count\<close> one higher and \<^verbatim>\<open>updated_at\<close> set to the clock's reading. In both
  cases every other id finds the record it found before, the number of records and the
  favorites are unchanged, and the hook \<^const>\<open>track_prompt_usage\<close> returns the configs it was
  given and leaves the number of records as it was.
\<close>

theorem record_usage_increments:
  "(get_prompt lib pid = None \<longrightarrow> record_usage now lib pid = lib)
   \<and> (\<forall>r. get_prompt lib pid = Some r \<longrightarrow>
          get_prompt (record_usage now lib pid) pid
            = Some (r\<lparr>rec_use_count := rec_use_count r + 1, rec_updated_at := now\<rparr>))
   \<and> (\<forall>other. other \<noteq> pid \<longrightarrow> get_prompt (record_usage now lib pid) other = get_prompt lib other)
   \<and> length (all_prompts (record_usage now lib pid)) = length (all_prompts lib)
   \<and> lib_favorites (record_usage now lib pid) = lib_favorites lib
   \<and> fst (track_prompt_usage find_by_prompt (record_usage now) lib configs) = configs
   \<and> length (all_prompts (snd (track_prompt_usage find_by_prompt (record_usage now) lib configs)))
       = length (all_prompts lib)"
proof -
  have a: "get_prompt lib pid = None \<longrightarrow> record_usage now lib pid = lib"
    by (simp add: record_usage_unknown)
  have b: "get_prompt (record_usage now lib pid) pid
            = Some (r\<lparr>rec_use_count := rec_use_count r + 1, rec_updated_at := now\<rparr>)"
    if "get_prompt lib pid = Some r" for r
  proof -
    have "find (\<lambda>r. rec_id r = pid)
            (update_first (\<lambda>r. rec_id r = pid) (bump_usage now) (all_prompts lib))
          = map_option (bump_usage now) (find (\<lambda>r. rec_id r = pid) (all_prompts lib))"
      by (rule find_update_first_same) (simp add: rec_id_bump_usage)
    with that show ?thesis
      by (simp add: get_prompt_def all_prompts_record_usage bump_usage_def)
  qed
  have c: "get_prompt (record_usage now lib pid) other = get_prompt lib other"
    if "other \<noteq> pid" for other
  proof -
    have "find (\<lambda>r. rec_id r = other)
            (update_first (\<lambda>r. rec_id r = pid) (bump_usage now) (all_prompts lib))
          = find (\<lambda>r. rec_id r = other) (all_prompts lib)"
      by (rule find_update_first_other) (use that in \<open>simp add: rec_id_bump_usage\<close>)
    then show ?thesis
      by (simp add: get_prompt_def all_prompts_record_usage)
  qed
  have d: "length (all_prompts (record_usage now lib pid)) = length (all_prompts lib)"
    by (simp add: all_prompts_record_usage length_update_first)
  have e: "lib_favorites (record_usage now lib pid) = lib_favorites lib"
    by (simp add: record_usage_def)
  have f: "fst (track_prompt_usage find_by_prompt (record_usage now) lib configs) = configs"
    by (simp add: track_prompt_usage_def Let_def split: option.splits)
  have g: "length (all_prompts (snd (track_prompt_usage find_by_prompt (record_usage now) lib configs)))
       = length (all_prompts lib)"
    by (simp add: track_prompt_usage_def Let_def all_prompts_record_usage length_update_first
          split: option.splits)
  show ?thesis using a b c d e f g by blast
qed

theorem record_usage_increments_witness:
  "get_prompt (record_usage 5 example_library ''p1'') ''p1''
     = Some (sunset_beach\<lparr>rec_use_count := 1, rec_updated_at := 5\<rparr>)
   \<and> get_prompt (record_usage 5 example_library ''p1'') ''p2'' = Some forest_path
   \<and> record_usage 5 example_library ''p9'' = example_library"
proof -
  have known: "get_prompt example_library ''p1'' = Some sunset_beach"
    by (simp add: get_prompt_def all_prompts_def example_library_def sunset_beach_def
          forest_path_def)
  have other: "get_prompt example_library ''p2'' = Some forest_path"
    by (simp add: get_prompt_def all_prompts_def example_library_def sunset_beach_def
          forest_path_def)
  have unknown: "get_prompt example_library ''p9'' = None"
    by (simp add: get_prompt_def all_prompts_def example_library_def sunset_beach_def
          forest_path_def)
  have a: "get_prompt (record_usage 5 example_library ''p1'') ''p1''
             = Some (sunset_beach\<lparr>rec_use_count := rec_use_count sunset_beach + 1,
                                  rec_updated_at := 5\<rparr>)"
    using known record_usage_increments [of example_library "''p1''" 5] by blast
  have a': "rec_use_count sunset_beach + 1 = 1"
    by (simp add: sunset_beach_def)
  have ne: "''p2'' \<noteq> ''p1''" by simp
  have b: "get_prompt (record_usage 5 example_library ''p1'') ''p2'' = Some forest_path"
    using other ne record_usage_increments [of example_library "''p1''" 5] by simp
  have c: "record_usage 5 example_library ''p9'' = example_library"
    using unknown record_usage_increments [of example_library "''p9''" 5] by blast
  show ?thesis using a b c by (simp only: a' simp_thms)
qed

section \<open>C8: an empty or malformed variable string\<close>

text \<open>
  C8. For every template, \<^const>\<open>substitute_variables\<close> returns the template itself, character
  for character, when the variable string is empty, consists of whitespace only, or has no
  piece between commas that contains \<^verbatim>\<open>=\<close> (no parseable \<^verbatim>\<open>key=value\<close> pair).
\<close>

theorem substitute_variables_malformed_identity:
  assumes "variable_string = [] \<or> (\<forall>c\<in>set variable_string. is_space c)
           \<or> (\<forall>p\<in>set (split_on CHR '','' variable_string). CHR ''='' \<notin> set (strip p))"
  shows "substitute_variables prompt variable_string = prompt"
  using assms
  by (auto simp: substitute_variables_def strip_all_space parse_variables_def fold_parse_pair_none)

theorem substitute_variables_malformed_identity_witness:
  "substitute_variables ''a {x} in {y}'' [] = ''a {x} in {y}''
   \<and> substitute_variables ''a {x} in {y}'' ''  '' = ''a {x} in {y}''
   \<and> substitute_variables ''a {x} in {y}'' ''x cat, y'' = ''a {x} in {y}''"
proof -
  have sp: "\<forall>c\<in>set ''  ''. is_space c"
    by (simp add: is_space_def)
  have ne: "\<forall>p\<in>set (split_on CHR '','' ''x cat, y''). CHR ''='' \<notin> set (strip p)"
    by (simp add: strip_def is_space_def)
  show ?thesis
    using sp ne
      substitute_variables_malformed_identity [of "[]" "''a {x} in {y}''"]
      substitute_variables_malformed_identity [of "''  ''" "''a {x} in {y}''"]
      substitute_variables_malformed_identity [of "''x cat, y''" "''a {x} in {y}''"]
    by blast
qed

section \<open>C9: using a prompt with its settings adds no generation parameter\<close>

text \<open>
  C9, as the code has it. When \<^const>\<open>use_with_settings\<close> applies a selected record to the host's
  settings, the keys of the result are keys of the current settings, \<^verbatim>\<open>"prompt"\<close> or
  \<^verbatim>\<open>"negative_prompt"\<close>: no other saved key is added. For every other key, an entry of the
  current settings takes the saved value when the record's saved settings hold the key and
  keeps its value otherwise, and a key absent from the current settings stays absent. The
  entry \<^verbatim>\<open>"prompt"\<close> is always present afterwards: it holds the saved value when the saved
  settings have the key, also when the current settings lacked it, and the substituted
  prompt otherwise. The entry \<^verbatim>\<open>"negative_prompt"\<close>, when the record has a non-empty negative
  prompt, holds the saved value when the saved settings have the key and the record's
  negative prompt otherwise; when the record has none, it takes the saved value only if the
  current settings have the entry. The saved value of a key is its last binding in the
  saved items, which for a dictionary is its only one.
\<close>

theorem use_with_settings_frame:
  assumes "lookup doc pid = Some prompt_data" and "pid \<noteq> []"
  shows "\<exists>settings'.
           fst (snd (use_with_settings lookup usage doc (Some settings) (Some pid) variables))
             = Some settings'
           \<and> fst ` set settings' \<subseteq> fst ` set settings \<union> {''prompt'', ''negative_prompt''}
           \<and> (\<forall>key. key \<noteq> ''prompt'' \<longrightarrow> key \<noteq> ''negative_prompt'' \<longrightarrow>
                 map_of settings' key =
                   (if key \<in> fst ` set settings
                    then (case map_of (rev (saved_settings_of prompt_data)) key of
                            Some v \<Rightarrow> Some v
                          | None \<Rightarrow> map_of settings key)
                    else None))
           \<and> map_of settings' ''prompt'' =
                (case map_of (rev (saved_settings_of prompt_data)) ''prompt'' of
                   Some v \<Rightarrow> Some v
                 | None \<Rightarrow> Some (JStr (substitute_variables (rec_prompt prompt_data) variables)))
           \<and> map_of settings' ''negative_prompt'' =
                (let unwritten =
                       (case map_of (rev (saved_settings_of prompt_data)) ''negative_prompt'' of
                          Some v \<Rightarrow> if ''negative_prompt'' \<in> fst ` set settings then Some v else None
                        | None \<Rightarrow> map_of settings ''negative_prompt'')
                 in case rec_negative_prompt prompt_data of
                      None \<Rightarrow> unwritten
                    | Some negative \<Rightarrow>
                        if negative = [] then unwritten
                        else (case map_of (rev (saved_settings_of prompt_data)) ''negative_prompt'' of
                                Some v \<Rightarrow> Some v
                              | None \<Rightarrow> Some (JStr negative)))"
proof -
  let ?s1 = "dict_set ''prompt'' (JStr (substitute_variables (rec_prompt prompt_data) variables)) settings"
  let ?s2 = "set_negative_prompt prompt_data ?s1"
  let ?s3 = "fold apply_saved_setting (saved_settings_of prompt_data) ?s2"
  have res: "fst (snd (use_with_settings lookup usage doc (Some settings) (Some pid) variables)) = Some ?s3"
    using assms by (simp add: use_with_settings_def Let_def)
  have keys: "fst ` set ?s3 \<subseteq> fst ` set settings \<union> {''prompt'', ''negative_prompt''}"
    using keys_set_negative_prompt [of prompt_data ?s1]
    by (auto simp: keys_fold_apply_saved keys_dict_set)
  have vals: "map_of ?s3 key =
                   (if key \<in> fst ` set settings
                    then (case map_of (rev (saved_settings_of prompt_data)) key of
                            Some v \<Rightarrow> Some v
                          | None \<Rightarrow> map_of settings key)
                    else None)"
    if "key \<noteq> ''prompt''" "key \<noteq> ''negative_prompt''" for key
    using that
    by (auto simp: map_of_fold_apply_saved keys_set_negative_prompt_other
          map_of_set_negative_prompt_other keys_dict_set map_of_dict_set
          split: option.splits)
  have p_in: "''prompt'' \<in> fst ` set ?s2"
    by (simp add: keys_set_negative_prompt_other keys_dict_set)
  have p_val: "map_of ?s2 ''prompt''
                 = Some (JStr (substitute_variables (rec_prompt prompt_data) variables))"
    by (simp add: map_of_set_negative_prompt_other map_of_dict_set)
  have prompt: "map_of ?s3 ''prompt'' =
                (case map_of (rev (saved_settings_of prompt_data)) ''prompt'' of
                   Some v \<Rightarrow> Some v
                 | None \<Rightarrow> Some (JStr (substitute_variables (rec_prompt prompt_data) variables)))"
    using p_in by (simp add: map_of_fold_apply_saved p_val split: option.splits)
  have none_iff: "map_of settings ''negative_prompt'' = None
                    \<longleftrightarrow> ''negative_prompt'' \<notin> fst ` set settings"
    by (rule map_of_eq_None_iff)
  have negative: "map_of ?s3 ''negative_prompt'' =
                (let unwritten =
                       (case map_of (rev (saved_settings_of prompt_data)) ''negative_prompt'' of
                          Some v \<Rightarrow> if ''negative_prompt'' \<in> fst ` set settings then Some v else None
                        | None \<Rightarrow> map_of settings ''negative_prompt'')
                 in case rec_negative_prompt prompt_data of
                      None \<Rightarrow> unwritten
                    | Some negative \<Rightarrow>
                        if negative = [] then unwritten
                        else (case map_of (rev (saved_settings_of prompt_data)) ''negative_prompt'' of
                                Some v \<Rightarrow> Some v
                              | None \<Rightarrow> Some (JStr negative)))"
  proof (cases "rec_negative_prompt prompt_data = None \<or> rec_negative_prompt prompt_data = Some []")
    case True
    then have s2: "?s2 = ?s1" by (rule set_negative_prompt_falsy)
    show ?thesis
    proof (cases "''negative_prompt'' \<in> fst ` set settings")
      case in_host: True
      with True show ?thesis
        unfolding s2
        by (auto simp: map_of_fold_apply_saved keys_dict_set map_of_dict_set Let_def
              split: option.splits)
    next
      case out: False
      then have "map_of settings ''negative_prompt'' = None" using none_iff by simp
      with True out show ?thesis
        unfolding s2
        by (auto simp: map_of_fold_apply_saved keys_dict_set Let_def split: option.splits)
    qed
  next
    case False
    then obtain negative where n: "rec_negative_prompt prompt_data = Some negative" "negative \<noteq> []"
      by auto
    then have s2: "?s2 = dict_set ''negative_prompt'' (JStr negative) ?s1"
      by (simp add: set_negative_prompt_def)
    show ?thesis
      unfolding s2 using n
      by (simp add: map_of_fold_apply_saved keys_dict_set map_of_dict_set Let_def
            split: option.splits)
  qed
  show ?thesis
  proof (intro exI [of _ ?s3] conjI)
    show "fst (snd (use_with_settings lookup usage doc (Some settings) (Some pid) variables)) = Some ?s3"
      by (rule res)
    show "fst ` set ?s3 \<subseteq> fst ` set settings \<union> {''prompt'', ''negative_prompt''}"
      by (rule keys)
    show "\<forall>key. key \<noteq> ''prompt'' \<longrightarrow> key \<noteq> ''negative_prompt'' \<longrightarrow>
                 map_of ?s3 key =
                   (if key \<in> fst ` set settings
                    then (case map_of (rev (saved_settings_of prompt_data)) key of
                            Some v \<Rightarrow> Some v
                          | None \<Rightarrow> map_of settings key)
                    else None)"
      using vals by blast
  qed (rule prompt, rule negative)
qed

theorem use_with_settings_frame_witness:
  "\<exists>settings'.
     fst (snd (use_with_settings
            (\<lambda>lib pid. Some \<lparr>rec_id = ''p1'', rec_name = ''Beach'', rec_prompt = ''a {x}'',
                 rec_negative_prompt = None, rec_tags = [],
                 rec_settings = Some [(''steps'', JNum 30), (''fps'', JNum 24)],
                 rec_use_count = 0, rec_variables = [''x''], rec_created_at = 0,
                 rec_updated_at = 0\<rparr>)
            (\<lambda>lib pid. lib) () (Some [(''steps'', JNum 8), (''seed'', JNum 7)]) (Some ''p1'') ''x=cat''))
       = Some settings'
     \<and> map_of settings' ''steps'' = Some (JNum 30)
     \<and> map_of settings' ''seed'' = Some (JNum 7)
     \<and> map_of settings' ''fps'' = None
     \<and> map_of settings' ''prompt'' = Some (JStr ''a cat'')
     \<and> map_of settings' ''negative_prompt'' = None"
proof -
  let ?d = "\<lparr>rec_id = ''p1'', rec_name = ''Beach'', rec_prompt = ''a {x}'',
                 rec_negative_prompt = None, rec_tags = [],
                 rec_settings = Some [(''steps'', JNum 30), (''fps'', JNum 24)],
                 rec_use_count = 0, rec_variables = [''x''], rec_created_at = 0,
                 rec_updated_at = 0\<rparr>"
  let ?host = "[(''steps'', JNum 8), (''seed'', JNum 7)]"
  have h1: "(\<lambda>lib pid. Some ?d) () ''p1'' = Some ?d" by simp
  have h2: "''p1'' \<noteq> []" by simp
  note th = use_with_settings_frame [where lookup = "\<lambda>lib pid. Some ?d" and doc = "()"
      and pid = "''p1''" and prompt_data = ?d and usage = "\<lambda>lib pid. lib"
      and settings = ?host and variables = "''x=cat''", OF h1 h2]
  from th obtain settings' where all:
    "fst (snd (use_with_settings (\<lambda>lib pid. Some ?d) (\<lambda>lib pid. lib) ()
          (Some ?host) (Some ''p1'') ''x=cat'')) = Some settings'
     \<and> fst ` set settings' \<subseteq> fst ` set ?host \<union> {''prompt'', ''negative_prompt''}
     \<and> (\<forall>key. key \<noteq> ''prompt'' \<longrightarrow> key \<noteq> ''negative_prompt'' \<longrightarrow>
                 map_of settings' key =
                   (if key \<in> fst ` set ?host
                    then (case map_of (rev (saved_settings_of ?d)) key of
                            Some v \<Rightarrow> Some v
                          | None \<Rightarrow> map_of ?host key)
                    else None))
     \<and> map_of settings' ''prompt'' =
                (case map_of (rev (saved_settings_of ?d)) ''prompt'' of
                   Some v \<Rightarrow> Some v
                 | None \<Rightarrow> Some (JStr (substitute_variables (rec_prompt ?d) ''x=cat'')))
     \<and> map_of settings' ''negative_prompt'' =
                (let unwritten =
                       (case map_of (rev (saved_settings_of ?d)) ''negative_prompt'' of
                          Some v \<Rightarrow> if ''negative_prompt'' \<in> fst ` set ?host then Some v else None
                        | None \<Rightarrow> map_of ?host ''negative_prompt'')
                 in case rec_negative_prompt ?d of
                      None \<Rightarrow> unwritten
                    | Some negative \<Rightarrow>
                        if negative = [] then unwritten
                        else (case map_of (rev (saved_settings_of ?d)) ''negative_prompt'' of
                                Some v \<Rightarrow> Some v
                              | None \<Rightarrow> Some (JStr negative)))"
    ..
  note r = all [THEN conjunct1]
  note v = all [THEN conjunct2, THEN conjunct2, THEN conjunct1, rule_format]
  note p = all [THEN conjunct2, THEN conjunct2, THEN conjunct2, THEN conjunct1]
  note n = all [THEN conjunct2, THEN conjunct2, THEN conjunct2, THEN conjunct2]
  have sub: "substitute_variables ''a {x}'' ''x=cat'' = ''a cat''"
    by (simp add: substitute_variables_def parse_variables_def parse_pair_def strip_def
          is_space_def split_once_def replace_variable_def placeholder_def)
  have 1: "map_of settings' ''steps'' = Some (JNum 30)"
    using v [of "''steps''"] by (simp add: saved_settings_of_def)
  have 2: "map_of settings' ''seed'' = Some (JNum 7)"
    using v [of "''seed''"] by (simp add: saved_settings_of_def)
  have 3: "map_of settings' ''fps'' = None"
    using v [of "''fps''"] by (simp add: saved_settings_of_def)
  have 4: "map_of settings' ''prompt'' = Some (JStr ''a cat'')"
    using p by (simp add: saved_settings_of_def sub)
  have 5: "map_of settings' ''negative_prompt'' = None"
    using n by (simp add: saved_settings_of_def)
  show ?thesis
    by (rule exI [of _ settings']) (simp only: r 1 2 3 4 5 simp_thms)
qed

text \<open>
  The claim as stated fails in its clause that saved keys absent from the current settings
  are ignored: the host's settings below have no \<^verbatim>\<open>"prompt"\<close> entry, the record's saved
  settings hold \<^verbatim>\<open>"prompt": "stale"\<close>, and the result holds the saved value, not the record's
  prompt.
\<close>

theorem saved_prompt_key_not_ignored:
  "map_of [(''steps'', JNum 8)] ''prompt'' = None
   \<and> fst (snd (use_with_settings
          (\<lambda>lib pid. Some \<lparr>rec_id = ''p1'', rec_name = ''Beach'', rec_prompt = ''a beach'',
               rec_negative_prompt = None, rec_tags = [],
               rec_settings = Some [(''prompt'', JStr ''stale'')],
               rec_use_count = 0, rec_variables = [], rec_created_at = 0, rec_updated_at = 0\<rparr>)
          (\<lambda>lib pid. lib) () (Some [(''steps'', JNum 8)]) (Some ''p1'') []))
       = Some [(''steps'', JNum 8), (''prompt'', JStr ''stale'')]"
  by (simp add: use_with_settings_def substitute_variables_def set_negative_prompt_def
        saved_settings_of_def apply_saved_setting_def)

section \<open>C10: a record without a negative prompt\<close>

text \<open>
  C10, as the code has it. Let the selected record's negative prompt be missing or empty.
  Then \<^const>\<open>use_prompt_only\<close> leaves the \<^verbatim>\<open>"negative_prompt"\<close> entry of the host's settings as
  it was. \<^const>\<open>use_with_settings\<close> leaves it as it was when the record's saved settings have no
  \<^verbatim>\<open>"negative_prompt"\<close> key; when they have one and the host's settings have the entry, the
  entry takes the saved value.
\<close>

theorem negative_prompt_kept_without_saved_entry:
  assumes "lookup doc pid = Some prompt_data" and "pid \<noteq> []"
    and "rec_negative_prompt prompt_data = None \<or> rec_negative_prompt prompt_data = Some []"
  shows "(\<exists>settings'.
            fst (snd (use_prompt_only lookup usage doc (Some settings) (Some pid) variables))
              = Some settings'
            \<and> map_of settings' ''negative_prompt'' = map_of settings ''negative_prompt'')
         \<and> (\<exists>settings'.
            fst (snd (use_with_settings lookup usage doc (Some settings) (Some pid) variables))
              = Some settings'
            \<and> map_of settings' ''negative_prompt'' =
                (case map_of (rev (saved_settings_of prompt_data)) ''negative_prompt'' of
                   None \<Rightarrow> map_of settings ''negative_prompt''
                 | Some v \<Rightarrow> if ''negative_prompt'' \<in> fst ` set settings then Some v else None))"
proof -
  let ?s1 = "dict_set ''prompt'' (JStr (substitute_variables (rec_prompt prompt_data) variables)) settings"
  have a: "fst (snd (use_prompt_only lookup usage doc (Some settings) (Some pid) variables))
             = Some ?s1"
    using assms by (simp add: use_prompt_only_def Let_def set_negative_prompt_falsy)
  have b: "map_of ?s1 ''negative_prompt'' = map_of settings ''negative_prompt''"
    by (simp add: map_of_dict_set)
  let ?s3 = "fold apply_saved_setting (saved_settings_of prompt_data) ?s1"
  have c: "fst (snd (use_with_settings lookup usage doc (Some settings) (Some pid) variables))
             = Some ?s3"
    using assms by (simp add: use_with_settings_def Let_def set_negative_prompt_falsy)
  have d: "map_of ?s3 ''negative_prompt'' =
                (case map_of (rev (saved_settings_of prompt_data)) ''negative_prompt'' of
                   None \<Rightarrow> map_of settings ''negative_prompt''
                 | Some v \<Rightarrow> if ''negative_prompt'' \<in> fst ` set settings then Some v else None)"
  proof (cases "''negative_prompt'' \<in> fst ` set settings")
    case True
    then show ?thesis
      by (simp add: map_of_fold_apply_saved keys_dict_set map_of_dict_set split: option.splits)
  next
    case False
    then have "map_of settings ''negative_prompt'' = None"
      by (simp add: map_of_eq_None_iff)
    with False show ?thesis
      by (simp add: map_of_fold_apply_saved keys_dict_set split: option.splits)
  qed
  show ?thesis using a b c d by blast
qed

theorem negative_prompt_kept_without_saved_entry_witness:
  "(\<exists>settings'.
      fst (snd (use_prompt_only
            (\<lambda>lib pid. Some \<lparr>rec_id = ''p1'', rec_name = ''Beach'', rec_prompt = ''a beach'',
               rec_negative_prompt = Some [], rec_tags = [],
               rec_settings = Some [(''steps'', JNum 30)],
               rec_use_count = 0, rec_variables = [], rec_created_at = 0, rec_updated_at = 0\<rparr>)
            (\<lambda>lib pid. lib) () (Some [(''negative_prompt'', JStr ''ugly'')]) (Some ''p1'') []))
        = Some settings'
      \<and> map_of settings' ''negative_prompt'' = Some (JStr ''ugly''))
   \<and> (\<exists>settings'.
      fst (snd (use_with_settings
            (\<lambda>lib pid. Some \<lparr>rec_id = ''p1'', rec_name = ''Beach'', rec_prompt = ''a beach'',
               rec_negative_prompt = Some [], rec_tags = [],
               rec_settings = Some [(''steps'', JNum 30)],
               rec_use_count = 0, rec_variables = [], rec_created_at = 0, rec_updated_at = 0\<rparr>)
            (\<lambda>lib pid. lib) () (Some [(''negative_prompt'', JStr ''ugly'')]) (Some ''p1'') []))
        = Some settings'
      \<and> map_of settings' ''negative_prompt'' = Some (JStr ''ugly''))"
proof -
  let ?d = "\<lparr>rec_id = ''p1'', rec_name = ''Beach'', rec_prompt = ''a beach'',
               rec_negative_prompt = Some [], rec_tags = [],
               rec_settings = Some [(''steps'', JNum 30)],
               rec_use_count = 0, rec_variables = [], rec_created_at = 0, rec_updated_at = 0\<rparr>"
  have h1: "(\<lambda>lib pid. Some ?d) () ''p1'' = Some ?d" by simp
  have h2: "''p1'' \<noteq> []" by simp
  have h3: "rec_negative_prompt ?d = None \<or> rec_negative_prompt ?d = Some []" by simp
  have e: "map_of (rev (saved_settings_of ?d)) ''negative_prompt'' = None"
    by (simp add: saved_settings_of_def)
  show ?thesis
    using negative_prompt_kept_without_saved_entry [where lookup = "\<lambda>lib pid. Some ?d"
      and doc = "()" and pid = "''p1''" and prompt_data = ?d
      and usage = "\<lambda>lib pid. lib"
      and settings = "[(''negative_prompt'', JStr ''ugly'')]" and variables = "[]",
      OF h1 h2 h3]
    unfolding e by simp
qed

text \<open>
  The claim as stated fails for \<^const>\<open>use_with_settings\<close>: the record below has no negative
  prompt, its saved settings hold \<^verbatim>\<open>"negative_prompt": "blurry"\<close>, and the host's entry
  \<^verbatim>\<open>"negative_prompt": "ugly"\<close> is overwritten by the loop over the saved settings.
\<close>

theorem negative_prompt_overwritten_by_saved_settings:
  "rec_negative_prompt
      \<lparr>rec_id = ''p1'', rec_name = ''Beach'', rec_prompt = ''a beach'',
       rec_negative_prompt = None, rec_tags = [],
       rec_settings = Some [(''negative_prompt'', JStr ''blurry'')],
       rec_use_count = 0, rec_variables = [], rec_created_at = 0, rec_updated_at = 0\<rparr> = None
   \<and> fst (snd (use_with_settings
          (\<lambda>lib pid. Some \<lparr>rec_id = ''p1'', rec_name = ''Beach'', rec_prompt = ''a beach'',
               rec_negative_prompt = None, rec_tags = [],
               rec_settings = Some [(''negative_prompt'', JStr ''blurry'')],
               rec_use_count = 0, rec_variables = [], rec_created_at = 0, rec_updated_at = 0\<rparr>)
          (\<lambda>lib pid. lib) () (Some [(''negative_prompt'', JStr ''ugly'')]) (Some ''p1'') []))
       = Some [(''negative_prompt'', JStr ''blurry''), (''prompt'', JStr ''a beach'')]"
  by (simp add: use_with_settings_def substitute_variables_def set_negative_prompt_def
        saved_settings_of_def apply_saved_setting_def)

end
